theory Spec2Isabelle
  imports Main
begin

section \<open>JavaScript values and helpers\<close>

text \<open>
  A thrown JavaScript value: \<open>new Error(message)\<close>, or \<open>undefined\<close> (what
  \<open>retryAsync\<close> throws when it never ran its function). A fallible computation returns
  \<open>thrown + 'a\<close>, with \<open>Inl\<close> for the throw.
\<close>

datatype thrown = Error string | Undefined

fun message :: "thrown \<Rightarrow> string" where
  "message (Error m) = m"
| "message Undefined = []"

text \<open>\<open>String.prototype.startsWith\<close> and \<open>String.prototype.includes\<close>.\<close>

fun startsWith :: "string \<Rightarrow> string \<Rightarrow> bool" where
  "startsWith s [] = True"
| "startsWith [] (c # cs) = False"
| "startsWith (x # xs) (c # cs) = (x = c \<and> startsWith xs cs)"

fun includes_str :: "string \<Rightarrow> string \<Rightarrow> bool" where
  "includes_str [] sub = (sub = [])"
| "includes_str (x # xs) sub = (startsWith (x # xs) sub \<or> includes_str xs sub)"

definition endsWith :: "string \<Rightarrow> string \<Rightarrow> bool" where
  "endsWith s suffix = startsWith (rev s) (rev suffix)"

text \<open>
  \<open>String.prototype.trim\<close> and \<open>toLowerCase\<close>. A \<open>string\<close> is a list of 8-bit
  characters, so only the ASCII white space and the ASCII letters are covered.
\<close>

definition isWhiteSpace :: "char \<Rightarrow> bool" where
  "isWhiteSpace c = (c \<in> set [CHR '' '', CHR 0x09, CHR 0x0A, CHR 0x0B, CHR 0x0C, CHR 0x0D])"

definition trim :: "string \<Rightarrow> string" where
  "trim s = rev (dropWhile isWhiteSpace (rev (dropWhile isWhiteSpace s)))"

definition toLowerChar :: "char \<Rightarrow> char" where
  "toLowerChar c = (let n = (of_char c :: nat) in if 65 \<le> n \<and> n \<le> 90 then char_of (n + 32) else c)"

definition toLowerCase :: "string \<Rightarrow> string" where
  "toLowerCase s = map toLowerChar s"

text \<open>A number in a template string: its decimal digits.\<close>

fun show_nat :: "nat \<Rightarrow> string" where
  "show_nat n = (if n < 10 then [char_of (48 + n)] else show_nat (n div 10) @ [char_of (48 + n mod 10)])"

declare show_nat.simps [simp del]

text \<open>utils.js, \<open>isDefined\<close> is true of every value here; \<open>isNotEmpty\<close>:\<close>

definition isNotEmpty :: "string \<Rightarrow> bool" where
  "isNotEmpty str = (length (trim str) > 0)"

section \<open>URLs\<close>

text \<open>
  The class \<open>URL\<close> belongs to the browser, not to the repository. The functions below
  take it as a parameter: \<open>new_URL\<close> is the constructor (\<open>None\<close> when it throws) and
  \<open>URL_toString\<close> is \<open>toString()\<close>. Of a parsed URL they read the \<open>hostname\<close> and
  the list \<open>searchParams\<close>.
\<close>

record url_obj =
  protocol :: string
  hostname :: string
  port :: string
  pathname :: string
  searchParams :: "(string \<times> string) list"
  hash :: string

record url_api =
  new_URL :: "string \<Rightarrow> url_obj option"
  URL_toString :: "url_obj \<Rightarrow> string"

definition searchParams_delete :: "string \<Rightarrow> (string \<times> string) list \<Rightarrow> (string \<times> string) list" where
  "searchParams_delete param ps = filter (\<lambda>(k, v). k \<noteq> param) ps"

text \<open>api.js, \<open>cleanUrl\<close>.\<close>

definition paramsToRemove :: "string list" where
  "paramsToRemove = [''_r'', ''u_code'', ''preview_pb'', ''is_copy_url'']"

definition cleanUrl :: "url_api \<Rightarrow> string \<Rightarrow> string" where
  "cleanUrl U url =
     (case new_URL U url of
        Some urlObj \<Rightarrow>
          URL_toString U (urlObj\<lparr>searchParams := fold searchParams_delete paramsToRemove (searchParams urlObj)\<rparr>)
      | None \<Rightarrow> url)"

text \<open>utils.js, \<open>isValidTikTokUrl\<close>: the test that \<open>fetchVideoData\<close> runs.\<close>

definition utils_isValidTikTokUrl :: "url_api \<Rightarrow> string \<Rightarrow> bool" where
  "utils_isValidTikTokUrl U url =
     (if url = [] then False
      else case new_URL U url of
             Some urlObj \<Rightarrow>
               includes_str (hostname urlObj) ''tiktok.com'' \<or>
               includes_str (hostname urlObj) ''vm.tiktok.com'' \<or>
               includes_str (hostname urlObj) ''vt.tiktok.com''
           | None \<Rightarrow> False)"

text \<open>utils.js, \<open>cleanTikTokUrl\<close>, which no module calls.\<close>

definition cleanTikTokUrl :: "url_api \<Rightarrow> string \<Rightarrow> string" where
  "cleanTikTokUrl U url0 =
     (if url0 = [] then []
      else (let url1 = trim url0;
                url = (if \<not> startsWith url1 ''http'' then ''https://'' @ url1 else url1)
            in case new_URL U url of
                 Some urlObj \<Rightarrow>
                   URL_toString U (urlObj\<lparr>searchParams :=
                     fold searchParams_delete [''_r'', ''u_code'', ''preview_pb''] (searchParams urlObj)\<rparr>)
               | None \<Rightarrow> url))"

text \<open>
  constants.js: \<open>VALIDATION.TIKTOK_DOMAINS\<close>, \<open>ERROR_MESSAGES.INVALID_URL\<close> (its
  Vietnamese text without the diacritics) and the regular expression
  \<open>REGEX_PATTERNS.TIKTOK_URL\<close>, \<^verbatim>\<open>/^https?:\/\/(?:www\.|vm\.|vt\.|m\.)?tiktok\.com\/.+/i\<close>, as the
  function that tests a string against it.
\<close>

definition TIKTOK_DOMAINS :: "string list" where
  "TIKTOK_DOMAINS = [''tiktok.com'', ''vm.tiktok.com'', ''vt.tiktok.com'']"

definition INVALID_URL :: string where
  "INVALID_URL = ''Vui long nhap link TikTok hop le''"

definition TIKTOK_URL_test :: "string \<Rightarrow> bool" where
  "TIKTOK_URL_test s =
     (let l = toLowerCase s in
      if \<not> startsWith l ''http'' then False
      else (let r1 = drop 4 l;
                r2 = (if startsWith r1 ''s'' then drop 1 r1 else r1) in
            if \<not> startsWith r2 ''://'' then False
            else (let r3 = drop 3 r2;
                      r4 = (if startsWith r3 ''www.'' then drop 4 r3
                            else if startsWith r3 ''vm.'' then drop 3 r3
                            else if startsWith r3 ''vt.'' then drop 3 r3
                            else if startsWith r3 ''m.'' then drop 2 r3
                            else r3) in
                  if \<not> startsWith r4 ''tiktok.com/'' then False
                  else (case drop 11 r4 of
                          [] \<Rightarrow> False
                        | c # _ \<Rightarrow> c \<noteq> CHR 0x0A \<and> c \<noteq> CHR 0x0D))))"

text \<open>validators.js, \<open>validateTikTokUrl\<close> and its \<open>isValidTikTokUrl\<close>.\<close>

record url_validation =
  v_isValid :: bool
  v_error :: "string option"
  v_cleanUrl :: "string option"

definition validateTikTokUrl :: "url_api \<Rightarrow> string \<Rightarrow> url_validation" where
  "validateTikTokUrl U url =
     (let result = \<lparr>v_isValid = False, v_error = None, v_cleanUrl = None\<rparr>;
          cleanUrl' = trim url in
      if \<not> isNotEmpty cleanUrl' then result\<lparr>v_error := Some INVALID_URL\<rparr>
      else (let normalizedUrl = (if \<not> startsWith cleanUrl' ''http'' then ''https://'' @ cleanUrl'
                                 else cleanUrl') in
            case new_URL U normalizedUrl of
              None \<Rightarrow> result\<lparr>v_error := Some INVALID_URL\<rparr>
            | Some urlObj \<Rightarrow>
                (let hostname' = toLowerCase (hostname urlObj);
                     isValidDomain = list_ex (\<lambda>domain. hostname' = domain \<or>
                                                endsWith hostname' (''.'' @ domain)) TIKTOK_DOMAINS in
                 if \<not> isValidDomain then result\<lparr>v_error := Some INVALID_URL\<rparr>
                 else if \<not> TIKTOK_URL_test normalizedUrl then result\<lparr>v_error := Some INVALID_URL\<rparr>
                 else result\<lparr>v_isValid := True, v_cleanUrl := Some normalizedUrl\<rparr>)))"

definition validators_isValidTikTokUrl :: "url_api \<Rightarrow> string \<Rightarrow> bool" where
  "validators_isValidTikTokUrl U url = v_isValid (validateTikTokUrl U url)"

text \<open>validators.js, \<open>isValidUrl\<close>.\<close>

definition isValidUrl :: "url_api \<Rightarrow> string \<Rightarrow> bool" where
  "isValidUrl U url = (case new_URL U url of Some _ \<Rightarrow> True | None \<Rightarrow> False)"

text \<open>
  A URL parser for closed examples: it reads \<open>http://\<close> or \<open>https://\<close>, a host with an
  optional port, and an optional path, query and fragment, and it refuses every other
  string, as the browser refuses a string without a scheme. On the inputs of the examples
  below it returns what the browser returns.
\<close>

definition splitOn :: "char \<Rightarrow> string \<Rightarrow> string \<times> string" where
  "splitOn c s = (takeWhile (\<lambda>x. x \<noteq> c) s, drop 1 (dropWhile (\<lambda>x. x \<noteq> c) s))"

fun splitAll :: "char \<Rightarrow> string \<Rightarrow> string list" where
  "splitAll c [] = [[]]"
| "splitAll c (x # xs) =
     (case splitAll c xs of
        [] \<Rightarrow> [[x]]
      | p # ps \<Rightarrow> if x = c then [] # p # ps else (x # p) # ps)"

definition parseQuery :: "string \<Rightarrow> (string \<times> string) list" where
  "parseQuery q = map (splitOn CHR ''='') (filter (\<lambda>piece. piece \<noteq> []) (splitAll CHR ''&'' q))"

definition example_new_URL :: "string \<Rightarrow> url_obj option" where
  "example_new_URL s =
     (let scheme = (if startsWith s ''https://'' then ''https:''
                    else if startsWith s ''http://'' then ''http:'' else []) in
      if scheme = [] then None
      else (let rest = drop (length scheme + 2) s;
                isDelim = (\<lambda>c. c = CHR ''/'' \<or> c = CHR ''?'' \<or> c = CHR ''#'');
                authority = takeWhile (\<lambda>c. \<not> isDelim c) rest;
                after = dropWhile (\<lambda>c. \<not> isDelim c) rest;
                path = takeWhile (\<lambda>c. c \<noteq> CHR ''?'' \<and> c \<noteq> CHR ''#'') after;
                afterPath = dropWhile (\<lambda>c. c \<noteq> CHR ''?'' \<and> c \<noteq> CHR ''#'') after;
                query = (if startsWith afterPath ''?''
                         then takeWhile (\<lambda>c. c \<noteq> CHR ''#'') (drop 1 afterPath) else []);
                fragment = dropWhile (\<lambda>c. c \<noteq> CHR ''#'') afterPath in
            if fst (splitOn CHR '':'' authority) = [] then None
            else Some \<lparr>protocol = scheme,
                       hostname = toLowerCase (fst (splitOn CHR '':'' authority)),
                       port = snd (splitOn CHR '':'' authority),
                       pathname = (if path = [] then ''/'' else path),
                       searchParams = parseQuery query,
                       hash = fragment\<rparr>))"

fun joinParams :: "(string \<times> string) list \<Rightarrow> string" where
  "joinParams [] = []"
| "joinParams [(k, v)] = k @ ''='' @ v"
| "joinParams ((k, v) # p # ps) = k @ ''='' @ v @ ''&'' @ joinParams (p # ps)"

definition example_URL_toString :: "url_obj \<Rightarrow> string" where
  "example_URL_toString u =
     protocol u @ ''//'' @ hostname u @ (if port u = [] then [] else '':'' @ port u) @ pathname u
       @ (if searchParams u = [] then [] else ''?'' @ joinParams (searchParams u)) @ hash u"

definition example_URL :: url_api where
  "example_URL = \<lparr>new_URL = example_new_URL, URL_toString = example_URL_toString\<rparr>"

section \<open>The response cache (api.js, \<open>getFromCache\<close> and \<open>saveToCache\<close>)\<close>

text \<open>
  \<open>requestCache\<close> is a JavaScript \<open>Map\<close>: it iterates in insertion order, \<open>set\<close> on
  a key it already holds replaces the value where the key stands, \<open>set\<close> on a new key
  appends, \<open>delete\<close> removes the key. It is modelled as an association list in that order.
\<close>

record 'v cache_entry =
  data :: 'v
  timestamp :: int

type_synonym 'v cache = "(string \<times> 'v cache_entry) list"

fun Map_get :: "('k \<times> 'e) list \<Rightarrow> 'k \<Rightarrow> 'e option" where
  "Map_get [] k = None"
| "Map_get ((k', e) # m) k = (if k' = k then Some e else Map_get m k)"

fun Map_set :: "('k \<times> 'e) list \<Rightarrow> 'k \<Rightarrow> 'e \<Rightarrow> ('k \<times> 'e) list" where
  "Map_set [] k e = [(k, e)]"
| "Map_set ((k', e') # m) k e = (if k' = k then (k, e) # m else (k', e') # Map_set m k e)"

fun Map_delete :: "('k \<times> 'e) list \<Rightarrow> 'k \<Rightarrow> ('k \<times> 'e) list" where
  "Map_delete [] k = []"
| "Map_delete ((k', e') # m) k = (if k' = k then Map_delete m k else (k', e') # Map_delete m k)"

definition cacheTimeout :: int where
  "cacheTimeout = 5 * 60 * 1000"

text \<open>
  \<open>getFromCache(url)\<close>, with the value of \<open>Date.now()\<close> as \<open>now\<close>. It returns the data
  (\<open>None\<close> for \<open>null\<close>) and the cache, from which an expired entry has been deleted.
\<close>

definition getFromCache :: "'v cache \<Rightarrow> string \<Rightarrow> int \<Rightarrow> 'v option \<times> 'v cache" where
  "getFromCache c url now =
     (case Map_get c url of
        Some cached \<Rightarrow>
          if now - timestamp cached < cacheTimeout then (Some (data cached), c)
          else (None, Map_delete c url)
      | None \<Rightarrow> (None, c))"

text \<open>
  \<open>saveToCache(url, data)\<close>: set the entry, then, when the map holds more than 50
  entries, delete the first key of the iteration order.
\<close>

definition saveToCache :: "'v cache \<Rightarrow> string \<Rightarrow> 'v \<Rightarrow> int \<Rightarrow> 'v cache" where
  "saveToCache c url d now =
     (let c' = Map_set c url \<lparr>data = d, timestamp = now\<rparr>
      in if length c' > 50 then Map_delete c' (fst (hd c')) else c')"

text \<open>What a JavaScript \<open>Map\<close> built by \<open>saveToCache\<close> always satisfies.\<close>

definition cache_inv :: "'v cache \<Rightarrow> bool" where
  "cache_inv c = (distinct (map fst c) \<and> length c \<le> 50)"

section \<open>The rate limiter (api.js, \<open>waitForRateLimit\<close>)\<close>

definition MIN_INTERVAL :: int where
  "MIN_INTERVAL = 2000"

definition MAX_REQUESTS_PER_MINUTE :: nat where
  "MAX_REQUESTS_PER_MINUTE = 30"

record rate_state =
  lastRequestTime :: int
  requestTimestamps :: "int list"

text \<open>
  \<open>waitForRateLimit()\<close> entered when \<open>Date.now()\<close> is \<open>now\<close>. The two awaited timers are
  returned as the list of delays asked for; \<open>lag\<close> is the time that passes beyond them
  before the final \<open>Date.now()\<close> (a timer never fires early). The result is the delays,
  the new state and the time recorded for the request.
\<close>

definition waitForRateLimit :: "rate_state \<Rightarrow> int \<Rightarrow> nat \<Rightarrow> int list \<times> rate_state \<times> int" where
  "waitForRateLimit st now lag =
     (let timeSinceLastRequest = now - lastRequestTime st;
          wait1 = (if timeSinceLastRequest < MIN_INTERVAL
                   then [MIN_INTERVAL - timeSinceLastRequest] else []);
          ts = filter (\<lambda>timestamp. now - timestamp < 60000) (requestTimestamps st);
          wait2 = (if length ts \<ge> MAX_REQUESTS_PER_MINUTE
                   then (let waitTime = 60000 - (now - hd ts)
                         in if waitTime > 0 then [waitTime] else [])
                   else []);
          now' = now + sum_list wait1 + sum_list wait2 + int lag
      in (wait1 @ wait2,
          \<lparr>lastRequestTime = now', requestTimestamps = ts @ [now']\<rparr>,
          now'))"

section \<open>The data fusion (api.js, \<open>combineMetadataAndDownloads\<close>)\<close>

text \<open>
  The payloads are JavaScript objects read with \<open>||\<close> and truth tests only, so a string
  field that is \<open>undefined\<close> is modelled as the empty string (both are falsy), a number
  that is \<open>undefined\<close> as 0 and a boolean as \<open>False\<close>.
\<close>

definition or_js :: "string \<Rightarrow> string \<Rightarrow> string" where
  "or_js a b = (if a \<noteq> [] then a else b)"

record urls =
  u_play :: string
  u_hdplay :: string
  u_wmplay :: string
  u_music :: string

record music_info_obj =
  mi_id :: string
  mi_title :: string
  mi_author :: string
  mi_play :: string
  mi_cover :: string
  mi_duration :: int
  mi_original :: bool
  mi_quality :: string

record author_obj =
  nickname :: string

text \<open>An entry of the download-link provider's \<open>downloads\<close>, and one of its \<open>photoList\<close>.\<close>

record download =
  dl_type :: string
  dl_quality :: string
  dl_url :: string

record photo =
  ph_thumbnail :: string
  ph_downloadUrl :: string
  ph_index :: int

text \<open>
  The download-link payload as \<open>combineMetadataAndDownloads\<close> reads it. (It also copies
  \<open>convertVideoData\<close> and \<open>scriptVars\<close>, which nothing here reads.)
\<close>

record tikvid_data =
  tv_id :: string
  tv_title :: string
  tv_thumbnail :: string
  tv_poster :: string
  tv_downloads :: "download list"
  tv_directVideoLinks :: "string list"
  tv_downloadCount :: nat
  tv_photoList :: "photo list"
  tv_photoCount :: nat
  tv_videoPreview :: string

text \<open>The \<open>tikvidData\<close> object of the fused record; \<open>downloadUrls\<close> is \<open>tikvidUrls\<close>.\<close>

record tikvid_part =
  tp_downloads :: "download list"
  tp_directVideoLinks :: "string list"
  tp_downloadCount :: nat
  tp_photoList :: "photo list"
  tp_photoCount :: nat
  tp_videoPreview :: string
  tp_downloadUrls :: urls
  tp_imageDownloadLinks :: "photo list"

record metadata_obj =
  source :: string
  downloadMode :: string
  md_note :: string
  hasHighQualityDownloads :: bool
  originalUrl :: string
  combinedAt :: "int option"

text \<open>
  The metadata payload (what \<open>normalizeTikwmData\<close> returns) and the fused record are the
  same object: the fusion copies the payload and adds \<open>tikvidData\<close> and \<open>originalUrls\<close>,
  which are \<open>None\<close> while the object has no such property. The counts, sizes and the other
  descriptive fields, which the fusion copies and never reads, are the record's extension.
\<close>

record media_data =
  vid_id :: string
  title :: string
  cover :: string
  play :: string
  hdplay :: string
  wmplay :: string
  music :: string
  author :: author_obj
  music_info :: "music_info_obj option"
  images :: "string list"
  isPhotoSlideshow :: bool
  metadata :: metadata_obj
  tikvidData :: "tikvid_part option"
  originalUrls :: "urls option"

text \<open>
  The fusion, in three parts: the object \<open>tikvidUrls\<close> that it builds from the
  download-link payload, the \<open>music_info\<close> that it chooses, and the record that it returns.
  \<open>now\<close> is the time of \<open>new Date()\<close>.
\<close>

definition tikvidUrls :: "tikvid_data \<Rightarrow> urls" where
  "tikvidUrls tikvidData' =
     (let noUrls = \<lparr>u_play = [], u_hdplay = [], u_wmplay = [], u_music = []\<rparr>
      in if tv_downloads tikvidData' \<noteq> [] then
           (let videoDownloads = filter (\<lambda>d. dl_type d = ''video'') (tv_downloads tikvidData');
                audioDownloads = filter (\<lambda>d. dl_type d = ''audio'') (tv_downloads tikvidData');
                u1 = (if videoDownloads \<noteq> [] then
                        (let hdVideo = find (\<lambda>v. includes_str (dl_quality v) ''HD'') videoDownloads;
                             standardVideo = find (\<lambda>v. includes_str (dl_quality v) ''[1]'') videoDownloads;
                             watermarkFreeVideo = find (\<lambda>v. includes_str (dl_quality v) ''[2]'') videoDownloads;
                             a = (case hdVideo of Some v \<Rightarrow> noUrls\<lparr>u_hdplay := dl_url v\<rparr> | None \<Rightarrow> noUrls);
                             b = (case standardVideo of Some v \<Rightarrow> a\<lparr>u_play := dl_url v\<rparr> | None \<Rightarrow> a)
                         in (case watermarkFreeVideo of Some v \<Rightarrow> b\<lparr>u_wmplay := dl_url v\<rparr> | None \<Rightarrow> b))
                      else noUrls)
            in (if audioDownloads \<noteq> [] then u1\<lparr>u_music := dl_url (hd audioDownloads)\<rparr> else u1))
         else noUrls)"

definition combined_music_info ::
  "'a media_data_scheme \<Rightarrow> tikvid_data \<Rightarrow> music_info_obj option" where
  "combined_music_info tikwmData tikvidData' =
     (let combined = tikwmData;
          fromTikwm = (case music_info tikwmData of
                         Some mi \<Rightarrow> if mi_play mi \<noteq> [] then Some mi else None
                       | None \<Rightarrow> None)
      in case fromTikwm of
           Some mi \<Rightarrow>
             Some \<lparr>mi_id = or_js (mi_id mi) (or_js (tv_id tikvidData') ''music_1''),
                   mi_title = or_js (mi_title mi) ''Original Sound'',
                   mi_author = or_js (mi_author mi) (or_js (nickname (author combined)) ''TikTok User''),
                   mi_play = mi_play mi,
                   mi_cover = or_js (mi_cover mi) (or_js (cover combined) (tv_thumbnail tikvidData')),
                   mi_duration = mi_duration mi,
                   mi_original = mi_original mi,
                   mi_quality = []\<rparr>
         | None \<Rightarrow>
            (case find (\<lambda>d. dl_type d = ''audio'') (tv_downloads tikvidData') of
               Some audioDownload \<Rightarrow>
                 Some \<lparr>mi_id = or_js (tv_id tikvidData') ''music_1'',
                       mi_title = or_js (title combined) (or_js (tv_title tikvidData') ''Background Music''),
                       mi_author = or_js (nickname (author combined)) ''TikTok User'',
                       mi_play = dl_url audioDownload,
                       mi_cover = or_js (cover combined) (or_js (tv_thumbnail tikvidData') (tv_poster tikvidData')),
                       mi_duration = 0,
                       mi_original = False,
                       mi_quality = or_js (dl_quality audioDownload) ''MP3''\<rparr>
             | None \<Rightarrow>
                 (let bestAudioUrl = or_js (u_music (tikvidUrls tikvidData')) (music tikwmData)
                  in if bestAudioUrl \<noteq> [] \<and> bestAudioUrl \<noteq> ''#'' then
                       Some \<lparr>mi_id = or_js (tv_id tikvidData') ''music_1'',
                             mi_title = or_js (title combined) ''Original Sound'',
                             mi_author = or_js (nickname (author combined)) ''TikTok User'',
                             mi_play = bestAudioUrl,
                             mi_cover = or_js (cover combined) (tv_thumbnail tikvidData'),
                             mi_duration = 0,
                             mi_original = False,
                             mi_quality = []\<rparr>
                     else None)))"

definition combineMetadataAndDownloads ::
  "'a media_data_scheme \<Rightarrow> tikvid_data \<Rightarrow> string \<Rightarrow> int \<Rightarrow> 'a media_data_scheme" where
  "combineMetadataAndDownloads tikwmData tikvidData' originalUrl' now =
     (let combined = tikwmData;
          originalTikwmUrls = \<lparr>u_play = play tikwmData, u_hdplay = hdplay tikwmData,
                               u_wmplay = wmplay tikwmData, u_music = music tikwmData\<rparr>;
          slideshow = (tv_photoList tikvidData' \<noteq> [])
      in combined
           \<lparr>music_info := combined_music_info tikwmData tikvidData',
            images := (if slideshow then map ph_thumbnail (tv_photoList tikvidData') else images combined),
            isPhotoSlideshow := (if slideshow then True else isPhotoSlideshow combined),
            metadata := (metadata combined)
              \<lparr>source := ''hybrid_tikwm_tikvid'',
               hasHighQualityDownloads := (tv_downloads tikvidData' \<noteq> []),
               originalUrl := originalUrl',
               combinedAt := Some now\<rparr>,
            tikvidData := Some
              \<lparr>tp_downloads = tv_downloads tikvidData',
               tp_directVideoLinks = tv_directVideoLinks tikvidData',
               tp_downloadCount = tv_downloadCount tikvidData',
               tp_photoList = tv_photoList tikvidData',
               tp_photoCount = tv_photoCount tikvidData',
               tp_videoPreview = tv_videoPreview tikvidData',
               tp_downloadUrls = tikvidUrls tikvidData',
               tp_imageDownloadLinks = (if slideshow then tv_photoList tikvidData' else [])\<rparr>,
            originalUrls := Some originalTikwmUrls\<rparr>)"

text \<open>
  How the record is read. It has no property named \<open>previewUrls\<close> or \<open>downloadUrls\<close>:
  the preview takes \<open>originalUrls\<close> when the record has it and the record's own
  \<open>play\<close>, \<open>hdplay\<close>, \<open>wmplay\<close>, \<open>music\<close> otherwise; a download takes the URL of
  \<open>tikvidData.downloadUrls\<close> when the record has one for the kind and falls back to the
  preview's (video-preview.js, \<open>createVideoElement\<close> and \<open>setupAudioDownload\<close>).
\<close>

definition ownUrls :: "'a media_data_scheme \<Rightarrow> urls" where
  "ownUrls r = \<lparr>u_play = play r, u_hdplay = hdplay r, u_wmplay = wmplay r, u_music = music r\<rparr>"

definition previewUrls :: "'a media_data_scheme \<Rightarrow> urls" where
  "previewUrls r = (case originalUrls r of Some u \<Rightarrow> u | None \<Rightarrow> ownUrls r)"

definition downloadUrls :: "'a media_data_scheme \<Rightarrow> urls" where
  "downloadUrls r =
     (case tikvidData r of
        None \<Rightarrow> previewUrls r
      | Some t \<Rightarrow>
          \<lparr>u_play = or_js (u_play (tp_downloadUrls t)) (u_play (previewUrls r)),
           u_hdplay = or_js (u_hdplay (tp_downloadUrls t)) (u_hdplay (previewUrls r)),
           u_wmplay = or_js (u_wmplay (tp_downloadUrls t)) (u_wmplay (previewUrls r)),
           u_music = or_js (u_music (tp_downloadUrls t)) (u_music (previewUrls r))\<rparr>)"

text \<open>
  The entry of the download-link payload that the fusion takes for each kind: the first
  video entry whose quality label contains \<open>HD\<close>, \<open>[1]\<close> or \<open>[2]\<close>, and the first audio entry.
\<close>

definition hdVideoOf :: "tikvid_data \<Rightarrow> download option" where
  "hdVideoOf p = find (\<lambda>v. includes_str (dl_quality v) ''HD'')
                   (filter (\<lambda>d. dl_type d = ''video'') (tv_downloads p))"

definition standardVideoOf :: "tikvid_data \<Rightarrow> download option" where
  "standardVideoOf p = find (\<lambda>v. includes_str (dl_quality v) ''[1]'')
                   (filter (\<lambda>d. dl_type d = ''video'') (tv_downloads p))"

definition watermarkFreeVideoOf :: "tikvid_data \<Rightarrow> download option" where
  "watermarkFreeVideoOf p = find (\<lambda>v. includes_str (dl_quality v) ''[2]'')
                   (filter (\<lambda>d. dl_type d = ''video'') (tv_downloads p))"

definition audioDownloadOf :: "tikvid_data \<Rightarrow> download option" where
  "audioDownloadOf p = find (\<lambda>d. dl_type d = ''audio'') (tv_downloads p)"

text \<open>The first test of the \<open>music_info\<close> choice: the metadata payload has one, with a \<open>play\<close> URL.\<close>

definition hasPlayableMusicInfo :: "'a media_data_scheme \<Rightarrow> bool" where
  "hasPlayableMusicInfo d = (case music_info d of Some mi \<Rightarrow> mi_play mi \<noteq> [] | None \<Rightarrow> False)"

section \<open>Fetching (api.js, \<open>fetchVideoData\<close>)\<close>

text \<open>
  The \<open>data\<close> of the metadata provider's answer, as \<open>normalizeTikwmData\<close> reads it
  (\<open>None\<close> for an \<open>author\<close> or a \<open>music_info\<close> that is missing), and the normalisation.
  The counts, sizes and \<open>create_time\<close> that it also copies are left out.
\<close>

record tikwm_raw =
  r_id :: string
  r_title :: string
  r_cover :: string
  r_play :: string
  r_hdplay :: string
  r_wmplay :: string
  r_music :: string
  r_author :: "author_obj option"
  r_music_info :: "music_info_obj option"
  r_images :: "string list"

definition normalizeTikwmData :: "tikwm_raw \<Rightarrow> media_data" where
  "normalizeTikwmData d =
     (let hdVideoUrl = or_js (r_hdplay d) (r_play d);
          standardVideoUrl = r_play d;
          wmFreeUrl = or_js (r_wmplay d) hdVideoUrl
      in \<lparr>vid_id = r_id d,
          title = or_js (r_title d) ''TikTok Video'',
          cover = r_cover d,
          play = standardVideoUrl,
          hdplay = hdVideoUrl,
          wmplay = wmFreeUrl,
          music = r_music d,
          author = (case r_author d of Some a \<Rightarrow> a | None \<Rightarrow> \<lparr>nickname = ''TikTok User''\<rparr>),
          music_info =
            (case r_music_info d of
               Some mi \<Rightarrow> Some mi
             | None \<Rightarrow>
                 if r_music d \<noteq> [] \<and> r_music d \<noteq> ''#'' then
                   Some \<lparr>mi_id = or_js (r_id d) ''music_1'',
                         mi_title = ''Original Sound'',
                         mi_author = or_js (case r_author d of Some a \<Rightarrow> nickname a | None \<Rightarrow> [])
                                       ''TikTok User'',
                         mi_play = r_music d,
                         mi_cover = r_cover d,
                         mi_duration = 0,
                         mi_original = False,
                         mi_quality = []\<rparr>
                 else None),
          images = r_images d,
          isPhotoSlideshow = (r_images d \<noteq> []),
          metadata = \<lparr>source = ''tikwm'', downloadMode = [], md_note = [],
                      hasHighQualityDownloads = False, originalUrl = [], combinedAt = None\<rparr>,
          tikvidData = None,
          originalUrls = None\<rparr>)"

text \<open>
  \<open>normalizeTikVidData\<close>. The answer of the download-link provider has the fields of
  \<open>tikvid_data\<close>; the normalised object keeps them, except that it has a \<open>cover\<close> in
  place of \<open>thumbnail\<close> and \<open>poster\<close>, so that these two are missing when the fusion
  reads them. (It also adds \<open>videoQualities\<close> and \<open>audioUrl\<close>, which nothing reads.)
\<close>

definition normalizeTikVidData :: "tikvid_data \<Rightarrow> tikvid_data" where
  "normalizeTikVidData d = d\<lparr>tv_title := or_js (tv_title d) ''TikTok Video'',
                              tv_thumbnail := [], tv_poster := []\<rparr>"

text \<open>
  What a \<open>fetch\<close> under \<open>withTimeout\<close> followed by \<open>response.json()\<close> gives: it throws
  (the network, the timeout, a body that is not JSON), or there is a response with a status
  and the parsed body.
\<close>

datatype 'b reply = Rejected string | Replied nat 'b

definition ok :: "nat \<Rightarrow> bool" where
  "ok st = (200 \<le> st \<and> st \<le> 299)"

record tikwm_body =
  code :: int
  msg :: string
  tikwm_payload :: tikwm_raw

record tikvid_body =
  status :: string
  status_message :: string
  tikvid_payload :: tikvid_data

definition fetchFromTikWM :: "tikwm_body reply \<Rightarrow> thrown + media_data" where
  "fetchFromTikWM r =
     (case r of
        Rejected m \<Rightarrow> Inl (Error m)
      | Replied st result \<Rightarrow>
          if \<not> ok st then Inl (Error (''TikWM API error: '' @ show_nat st))
          else if code result = 0 then Inr (normalizeTikwmData (tikwm_payload result))
          else Inl (Error (or_js (msg result) ''TikWM API returned error'')))"

definition fetchFromTikVidProxy :: "tikvid_body reply \<Rightarrow> thrown + tikvid_data" where
  "fetchFromTikVidProxy r =
     (case r of
        Rejected m \<Rightarrow> Inl (Error m)
      | Replied st result \<Rightarrow>
          if \<not> ok st then Inl (Error (''TikVid proxy API error: '' @ show_nat st))
          else if status result = ''success'' then Inr (normalizeTikVidData (tikvid_payload result))
          else Inl (Error (or_js (status_message result) ''TikVid proxy API returned error'')))"

text \<open>
  The two providers and the timers, as an environment: the answer to the \<open>n\<close>-th request
  for a URL and the time it takes, and the lag of the timers of the \<open>n\<close>-th rate-limit wait.
\<close>

record env =
  tikwm_reply :: "string \<Rightarrow> nat \<Rightarrow> tikwm_body reply"
  tikwm_latency :: "nat \<Rightarrow> nat"
  tikvid_reply :: "string \<Rightarrow> nat \<Rightarrow> tikvid_body reply"
  tikvid_latency :: "nat \<Rightarrow> nat"
  timer_lag :: "nat \<Rightarrow> nat"

text \<open>
  The state of the \<open>APIManager\<close> (its cache and its rate limiter), the clock that
  \<open>Date.now()\<close> reads, and the number of requests sent to each provider so far.
\<close>

record world =
  requestCache :: "media_data cache"
  limiter :: rate_state
  clock :: int
  tikwmCalls :: nat
  tikvidCalls :: nat

definition rateLimited :: "env \<Rightarrow> world \<Rightarrow> world" where
  "rateLimited e w =
     (case waitForRateLimit (limiter w) (clock w) (timer_lag e (tikwmCalls w + tikvidCalls w)) of
        (waits, st, now) \<Rightarrow> w\<lparr>limiter := st, clock := now\<rparr>)"

definition fetchMetadata :: "env \<Rightarrow> world \<Rightarrow> string \<Rightarrow> world \<times> (thrown + media_data)" where
  "fetchMetadata e w0 url =
     (let w = rateLimited e w0;
          w' = w\<lparr>clock := clock w + int (tikwm_latency e (tikwmCalls w)),
                 tikwmCalls := Suc (tikwmCalls w)\<rparr>
      in case fetchFromTikWM (tikwm_reply e url (tikwmCalls w)) of
           Inr d \<Rightarrow> (w', Inr d)
         | Inl error \<Rightarrow> (w', Inl (Error ''TikWM metadata API failed'')))"

definition fetchDownloadLinks :: "env \<Rightarrow> world \<Rightarrow> string \<Rightarrow> world \<times> (thrown + tikvid_data)" where
  "fetchDownloadLinks e w0 url =
     (let w = rateLimited e w0;
          w' = w\<lparr>clock := clock w + int (tikvid_latency e (tikvidCalls w)),
                 tikvidCalls := Suc (tikvidCalls w)\<rparr>
      in case fetchFromTikVidProxy (tikvid_reply e url (tikvidCalls w)) of
           Inr d \<Rightarrow> (w', Inr d)
         | Inl error \<Rightarrow> (w', Inl (Error ''TikVid download API failed'')))"

text \<open>validators.js, \<open>validateApiResponse\<close> (its messages without the diacritics).\<close>

record api_validation =
  a_isValid :: bool
  a_error :: "string option"

definition validateApiResponse :: "url_api \<Rightarrow> 'a media_data_scheme \<Rightarrow> api_validation" where
  "validateApiResponse U d =
     (let result = \<lparr>a_isValid = False, a_error = None\<rparr> in
      if \<not> isNotEmpty (title d) then result\<lparr>a_error := Some ''Du lieu video khong day du''\<rparr>
      else if play d \<noteq> [] \<and> \<not> isValidUrl U (play d)
        then result\<lparr>a_error := Some ''Link video khong hop le''\<rparr>
      else if music d \<noteq> [] \<and> \<not> isValidUrl U (music d)
        then result\<lparr>a_error := Some ''Link audio khong hop le''\<rparr>
      else if length (filter (\<lambda>img. \<not> isValidUrl U img) (images d)) > 0
        then result\<lparr>a_error := Some ''Mot so link hinh anh khong hop le''\<rparr>
      else result\<lparr>a_isValid := True\<rparr>)"

text \<open>
  \<open>fetchVideoData(url)\<close>. \<open>proxyFallback\<close> is the \<open>catch (tikvidError)\<close> block, entered
  when the download-link request, the fusion or the validation throws; the last
  \<open>case\<close> is the outer \<open>catch\<close>, entered when the metadata request throws.
\<close>

definition proxyFallback :: "world \<Rightarrow> string \<Rightarrow> media_data \<Rightarrow> world \<times> (thrown + media_data)" where
  "proxyFallback w cleanUrl' metadataData =
     (let metadataData' = metadataData\<lparr>metadata := (metadata metadataData)
            \<lparr>downloadMode := ''proxy_fallback'',
             source := ''tikwm_with_proxy_fallback'',
             md_note := ''TikVid proxy unavailable, downloads will try proxy then direct''\<rparr>\<rparr>
      in (w\<lparr>requestCache := saveToCache (requestCache w) cleanUrl' metadataData' (clock w)\<rparr>,
          Inr metadataData'))"

definition API_ERROR :: string where
  "API_ERROR = ''Khong the tai thong tin video tu API''"

definition fetchVideoData :: "url_api \<Rightarrow> env \<Rightarrow> world \<Rightarrow> string \<Rightarrow> world \<times> (thrown + media_data)" where
  "fetchVideoData U e w0 url =
     (if \<not> utils_isValidTikTokUrl U url then (w0, Inl (Error INVALID_URL))
      else
        (let cleanUrl' = cleanUrl U url in
         case getFromCache (requestCache w0) cleanUrl' (clock w0) of
           (Some cached, c) \<Rightarrow> (w0\<lparr>requestCache := c\<rparr>, Inr cached)
         | (None, c) \<Rightarrow>
            (case fetchMetadata e (w0\<lparr>requestCache := c\<rparr>) cleanUrl' of
               (w1, Inr metadataData) \<Rightarrow>
                 (case fetchDownloadLinks e w1 cleanUrl' of
                    (w2, Inr downloadData) \<Rightarrow>
                      (let enhancedData = combineMetadataAndDownloads metadataData downloadData
                                            cleanUrl' (clock w2);
                           validation = validateApiResponse U enhancedData
                       in if \<not> a_isValid validation then proxyFallback w2 cleanUrl' metadataData
                          else (w2\<lparr>requestCache :=
                                     saveToCache (requestCache w2) cleanUrl' enhancedData (clock w2)\<rparr>,
                                Inr enhancedData))
                  | (w2, Inl tikvidError) \<Rightarrow> proxyFallback w2 cleanUrl' metadataData)
             | (w1, Inl error) \<Rightarrow>
                 (case fetchMetadata e w1 cleanUrl' of
                    (w2, Inr fallbackData0) \<Rightarrow>
                      (let fallbackData = fallbackData0\<lparr>metadata := (metadata fallbackData0)
                             \<lparr>downloadMode := ''fallback'',
                              source := ''tikwm_fallback'',
                              md_note := ''Fallback mode: TikWM only with proxy attempts''\<rparr>\<rparr>
                       in (w2\<lparr>requestCache :=
                                 saveToCache (requestCache w2) cleanUrl' fallbackData (clock w2)\<rparr>,
                           Inr fallbackData))
                  | (w2, Inl fallbackError) \<Rightarrow>
                      (w2, Inl (Error (or_js (message fallbackError) API_ERROR)))))))"

section \<open>Downloads: the environment and \<open>retryAsync\<close>\<close>

text \<open>
  A download acts on the network and on the page. Each action is an event, and the history
  of a run is the list of its events in order. The environment answers a request, and says
  whether an operation on the page throws, from the history before it and the event itself,
  so the same request may be answered differently each time. It also gives the five
  characters that \<open>generateFilename\<close> draws with \<open>Math.random\<close>.
\<close>

datatype event =
    Sleep nat
  | HealthCheck
  | ProxyFetch string string
  | NoCorsFetch string
  | CorsFetch string
  | DownloadBlob string
  | DirectLink string string
  | CanvasLoad string
  | WindowOpen string
  | ZipFetch string nat
  | ZipCanvas string
  | ZipGenerate
  | ShowLoader
  | HideLoader
  | Notification string
  | Toast string
  | UpdateLoadingText nat nat

record blob =
  blob_size :: nat
  blob_type :: string

record http_response =
  rs_status :: nat
  rs_statusText :: string
  rs_text :: string
  rs_blob :: blob

datatype response = Failed string | Response http_response

record dl_env =
  respond :: "event list \<Rightarrow> event \<Rightarrow> response"
  dom_throws :: "event list \<Rightarrow> event \<Rightarrow> thrown option"
  randomId :: "event list \<Rightarrow> string"

type_synonym 'a step = "event list \<Rightarrow> event list \<times> (thrown + 'a)"

definition fetch :: "dl_env \<Rightarrow> event \<Rightarrow> event list \<Rightarrow> event list \<times> response" where
  "fetch E ev h = (h @ [ev], respond E h ev)"

definition domOp :: "dl_env \<Rightarrow> event \<Rightarrow> unit step" where
  "domOp E ev h = (h @ [ev], case dom_throws E h ev of Some t \<Rightarrow> Inl t | None \<Rightarrow> Inr ())"

definition sleep :: "nat \<Rightarrow> event list \<Rightarrow> event list" where
  "sleep ms h = h @ [Sleep ms]"

text \<open>
  utils.js, \<open>retryAsync(fn, maxRetries, baseDelay)\<close>. The loop variable \<open>i\<close> is
  \<open>maxRetries\<close> minus the number of rounds that remain.
\<close>

fun retryLoop :: "'a step \<Rightarrow> nat \<Rightarrow> nat \<Rightarrow> nat \<Rightarrow> thrown \<Rightarrow> 'a step" where
  "retryLoop fn maxRetries baseDelay 0 lastError h = (h, Inl lastError)"
| "retryLoop fn maxRetries baseDelay (Suc remaining) lastError h =
     (let i = maxRetries - Suc remaining in
      case fn h of
        (h', Inr v) \<Rightarrow> (h', Inr v)
      | (h', Inl error) \<Rightarrow>
          retryLoop fn maxRetries baseDelay remaining error
            (if i < maxRetries - 1 then sleep (baseDelay * 2 ^ i) h' else h'))"

definition retryAsync :: "'a step \<Rightarrow> nat \<Rightarrow> nat \<Rightarrow> 'a step" where
  "retryAsync fn maxRetries baseDelay h = retryLoop fn maxRetries baseDelay maxRetries Undefined h"

section \<open>The media download (media-downloader.js)\<close>

text \<open>
  \<open>downloadBlob\<close> saves the bytes that a method has received, through an object URL and
  an anchor; \<open>createDirectDownloadLink\<close> builds an anchor to the URL itself and clicks it,
  and is the operation whose throwing the environment decides. The messages are the
  source's, the Vietnamese ones without diacritics and emoji.
\<close>

definition downloadBlob :: "string \<Rightarrow> unit step" where
  "downloadBlob filename h = (h @ [DownloadBlob filename], Inr ())"

definition createDirectDownloadLink :: "dl_env \<Rightarrow> string \<Rightarrow> string \<Rightarrow> unit step" where
  "createDirectDownloadLink E url filename h = domOp E (DirectLink url filename) h"

definition apiUnavailable :: string where
  "apiUnavailable = ''TikVid API khong kha dung! Vui long thu lai sau hoac kiem tra ket noi mang. API: https://cors-kimizk.vercel.app''"

definition checkTikVidProxyHealth :: "dl_env \<Rightarrow> unit step" where
  "checkTikVidProxyHealth E h =
     (case fetch E HealthCheck h of
        (h', Failed m) \<Rightarrow> (h', Inl (Error (apiUnavailable @ '' Chi tiet loi: '' @ m)))
      | (h', Response r) \<Rightarrow>
          if rs_status r = 200 \<or> rs_status r = 400 then (h', Inr ())
          else (h', Inl (Error (apiUnavailable @ '' Chi tiet loi: ''
                                  @ ''API returned status: '' @ show_nat (rs_status r)))))"

definition downloadViaTikVidProxy :: "dl_env \<Rightarrow> string \<Rightarrow> string \<Rightarrow> unit step" where
  "downloadViaTikVidProxy E url filename h =
     (case checkTikVidProxyHealth E h of
        (h1, Inl e) \<Rightarrow> (h1, Inl e)
      | (h1, Inr _) \<Rightarrow>
          (case fetch E (ProxyFetch url filename) h1 of
             (h2, Failed m) \<Rightarrow> (h2, Inl (Error m))
           | (h2, Response r) \<Rightarrow>
               if \<not> ok (rs_status r) then
                 (h2, Inl (Error (''TikVid proxy failed: '' @ show_nat (rs_status r) @ '' ''
                                    @ rs_statusText r @ [CHR 0x0A] @ rs_text r)))
               else if blob_size (rs_blob r) = 0 then
                 (h2, Inl (Error ''Empty file received from TikVid proxy''))
               else downloadBlob filename h2))"

definition downloadViaFetch :: "dl_env \<Rightarrow> string \<Rightarrow> string \<Rightarrow> unit step" where
  "downloadViaFetch E url filename h =
     (let noCors =
            (case fetch E (NoCorsFetch url) h of
               (h1, Failed m) \<Rightarrow> (h1, Inl (Error m))
             | (h1, Response r) \<Rightarrow>
                 if blob_size (rs_blob r) = 0 then (h1, Inl (Error ''Empty file received''))
                 else downloadBlob filename h1)
      in case noCors of
           (h1, Inr u) \<Rightarrow> (h1, Inr u)
         | (h1, Inl noCorsError) \<Rightarrow>
             (case fetch E (CorsFetch url) h1 of
                (h2, Failed m) \<Rightarrow> (h2, Inl (Error m))
              | (h2, Response r) \<Rightarrow>
                  if \<not> ok (rs_status r) then
                    (h2, Inl (Error (''HTTP '' @ show_nat (rs_status r) @ '': '' @ rs_statusText r)))
                  else if blob_size (rs_blob r) = 0 then (h2, Inl (Error ''Empty file received''))
                  else downloadBlob filename h2))"

text \<open>
  \<open>attemptDownload\<close>: the loop over \<open>methods\<close>, which are the same three for a TikVid
  URL and for any other.
\<close>

definition isTikVidUrl :: "string \<Rightarrow> bool" where
  "isTikVidUrl url = (includes_str url ''dl.snapcdn.app'' \<or> includes_str url ''tikvid.io''
                       \<or> includes_str url ''muscdn.com'')"

definition allMethodsFailed :: string where
  "allMethodsFailed = ''Khong the tai file qua cac phuong thuc co san.''"

fun attemptMethods :: "unit step list \<Rightarrow> bool \<Rightarrow> unit step" where
  "attemptMethods [] tikVid h = (h, Inl (Error allMethodsFailed))"
| "attemptMethods (method # methods) tikVid h =
     (case retryAsync method 2 1000 h of
        (h', Inr _) \<Rightarrow> (h', Inr ())
      | (h', Inl error) \<Rightarrow>
          if tikVid \<and> (includes_str (message error) ''ERR_CONNECTION_REFUSED''
                       \<or> includes_str (message error) ''Failed to fetch'')
          then (h', Inl (Error apiUnavailable))
          else attemptMethods methods tikVid h')"

definition attemptDownload :: "dl_env \<Rightarrow> string \<Rightarrow> string \<Rightarrow> unit step" where
  "attemptDownload E url filename h =
     attemptMethods
       [downloadViaTikVidProxy E url filename,
        downloadViaFetch E url filename,
        createDirectDownloadLink E url filename]
       (isTikVidUrl url) h"

text \<open>
  \<open>downloadMedia(url, filename, type)\<close>. The loader and the notifications of the
  \<open>UIManager\<close> are events that do not throw; the set \<open>activeDownloads\<close> is left out.
\<close>

definition downloadMedia :: "dl_env \<Rightarrow> string \<Rightarrow> string \<Rightarrow> string \<Rightarrow> unit step" where
  "downloadMedia E url filename type h =
     (if url = [] \<or> url = ''#'' then (h, Inl (Error ''Invalid URL''))
      else
        (case attemptDownload E url filename (h @ [ShowLoader]) of
           (h1, Inr _) \<Rightarrow> (h1 @ [HideLoader, Notification ''success''], Inr ())
         | (h1, Inl error) \<Rightarrow>
             createDirectDownloadLink E url filename (h1 @ [HideLoader, Notification ''warning''])))"







section \<open>The image downloads (image-downloader.js, download.js)\<close>

text \<open>utils.js, \<open>generateFilename\<close>, with the random characters as an argument.\<close>

definition generateFilename :: "string \<Rightarrow> string \<Rightarrow> string \<Rightarrow> string" where
  "generateFilename prefix extension randomId' =
     (let kimizKPrefix =
        (if includes_str prefix ''video'' then
           (if includes_str prefix ''hd'' \<or> includes_str prefix ''HD'' then ''kimizk-vid(hd)''
            else if includes_str prefix ''sd'' \<or> includes_str prefix ''SD'' then ''kimizk-vid(sd)''
            else ''kimizk-vid'')
         else if includes_str prefix ''image'' \<or> includes_str prefix ''pic'' then ''kimizk-pic''
         else if includes_str prefix ''audio'' \<or> includes_str prefix ''music''
                 \<or> includes_str prefix ''mp3'' then ''kimizk-au''
         else if includes_str prefix ''tiktok'' then
           (if includes_str prefix ''video'' then ''kimizk-vid''
            else if includes_str prefix ''image'' then ''kimizk-pic''
            else ''kimizk-vid'')
         else prefix)
      in kimizKPrefix @ ''-'' @ randomId' @ ''.'' @ extension)"

text \<open>validators.js, \<open>validateImageBlob\<close>: the error, or \<open>None\<close> for a valid image.\<close>

definition validateImageBlob :: "blob \<Rightarrow> string option" where
  "validateImageBlob b =
     (if blob_size b = 0 then Some ''File hinh anh trong''
      else if \<not> startsWith (blob_type b) ''image/'' then Some ''File khong phai la hinh anh''
      else None)"

text \<open>The four methods of \<open>attemptImageDownload\<close>.\<close>

definition downloadImageViaProxy :: "dl_env \<Rightarrow> string \<Rightarrow> string \<Rightarrow> unit step" where
  "downloadImageViaProxy E imageUrl filename h =
     (let tried =
            (case fetch E (ProxyFetch imageUrl filename) h of
               (h1, Failed m) \<Rightarrow> (h1, Inl (Error m))
             | (h1, Response r) \<Rightarrow>
                 if \<not> ok (rs_status r) then
                   (h1, Inl (Error (''TikVid proxy failed: '' @ show_nat (rs_status r))))
                 else if blob_size (rs_blob r) = 0 then
                   (h1, Inl (Error ''Empty file received from proxy''))
                 else downloadBlob filename h1)
      in case tried of
           (h1, Inr u) \<Rightarrow> (h1, Inr u)
         | (h1, Inl error) \<Rightarrow>
             if includes_str (message error) ''ERR_CONNECTION_REFUSED''
                \<or> includes_str (message error) ''fetch''
             then (h1, Inl (Error ''TikVid proxy server khong hoat dong. Chay: node tikvid-proxy-server.js''))
             else (h1, Inl error))"

definition downloadImageViaFetch :: "dl_env \<Rightarrow> string \<Rightarrow> string \<Rightarrow> unit step" where
  "downloadImageViaFetch E imageUrl filename h =
     (let noCors =
            (case fetch E (NoCorsFetch imageUrl) h of
               (h1, Failed m) \<Rightarrow> (h1, Inl (Error m))
             | (h1, Response r) \<Rightarrow>
                 if blob_size (rs_blob r) > 0 then downloadBlob filename h1
                 else (h1, Inl (Error ''Empty blob from no-cors fetch'')))
      in case noCors of
           (h1, Inr u) \<Rightarrow> (h1, Inr u)
         | (h1, Inl noCorsError) \<Rightarrow>
             (case fetch E (CorsFetch imageUrl) h1 of
                (h2, Failed m) \<Rightarrow> (h2, Inl (Error m))
              | (h2, Response r) \<Rightarrow>
                  if \<not> ok (rs_status r) then (h2, Inl (Error (''HTTP '' @ show_nat (rs_status r))))
                  else (case validateImageBlob (rs_blob r) of
                          Some err \<Rightarrow> (h2, Inl (Error err))
                        | None \<Rightarrow> downloadBlob filename h2)))"

definition createDirectDownload :: "dl_env \<Rightarrow> string \<Rightarrow> string \<Rightarrow> unit step" where
  "createDirectDownload E imageUrl filename h = domOp E (DirectLink imageUrl filename) h"

definition downloadImageViaCanvas :: "dl_env \<Rightarrow> string \<Rightarrow> string \<Rightarrow> unit step" where
  "downloadImageViaCanvas E imageUrl filename h =
     (case fetch E (CanvasLoad imageUrl) h of
        (h1, Failed m) \<Rightarrow> (h1, Inl (Error m))
      | (h1, Response r) \<Rightarrow>
          if blob_size (rs_blob r) > 0 then downloadBlob filename h1
          else (h1, Inl (Error ''Canvas to blob failed'')))"

fun attemptImageMethods :: "unit step list \<Rightarrow> unit step" where
  "attemptImageMethods [] h = (h, Inl (Error ''All image download methods failed''))"
| "attemptImageMethods (method # methods) h =
     (case retryAsync method 1 500 h of
        (h', Inr _) \<Rightarrow> (h', Inr ())
      | (h', Inl error) \<Rightarrow> attemptImageMethods methods h')"

definition attemptImageDownload :: "dl_env \<Rightarrow> string \<Rightarrow> string \<Rightarrow> unit step" where
  "attemptImageDownload E imageUrl filename h =
     attemptImageMethods
       [downloadImageViaProxy E imageUrl filename,
        downloadImageViaFetch E imageUrl filename,
        createDirectDownload E imageUrl filename,
        downloadImageViaCanvas E imageUrl filename] h"

text \<open>
  \<open>ImageDownloader.downloadSingleImage(imageUrl, index)\<close>, whose \<open>catch\<close> opens the image
  in a new tab, and \<open>DownloadManager.downloadSingleImage\<close>, whose \<open>catch\<close> shows a toast.
\<close>

definition ImageDownloader_downloadSingleImage :: "dl_env \<Rightarrow> string \<Rightarrow> nat \<Rightarrow> unit step" where
  "ImageDownloader_downloadSingleImage E imageUrl index h =
     (let filename = generateFilename (''tiktok_image_'' @ show_nat (index + 1)) ''jpg'' (randomId E h)
      in case attemptImageDownload E imageUrl filename h of
           (h', Inr _) \<Rightarrow> (h', Inr ())
         | (h', Inl error) \<Rightarrow> domOp E (WindowOpen imageUrl) h')"

definition downloadSingleImage :: "dl_env \<Rightarrow> string \<Rightarrow> nat \<Rightarrow> unit step" where
  "downloadSingleImage E imageUrl index h =
     (case ImageDownloader_downloadSingleImage E imageUrl index h of
        (h', Inr _) \<Rightarrow> (h', Inr ())
      | (h', Inl error) \<Rightarrow> (h' @ [Toast ''error''], Inr ()))"

text \<open>
  \<open>downloadAllImagesIndividually()\<close>, with \<open>currentData.images\<close> as an argument. The
  loop is \<open>individuallyLoop\<close>: \<open>totalImages\<close> is \<open>currentData.images.length\<close>, \<open>i\<close> the index of
  the first image of the list that remains.
\<close>

fun individuallyLoop :: "dl_env \<Rightarrow> nat \<Rightarrow> string list \<Rightarrow> nat \<Rightarrow> event list \<Rightarrow> event list" where
  "individuallyLoop E totalImages [] i h = h"
| "individuallyLoop E totalImages (imageUrl # remaining) i h =
     (case downloadSingleImage E imageUrl i h of
        (h', Inr _) \<Rightarrow>
          individuallyLoop E totalImages remaining (i + 1)
            (if i < totalImages - 1 then sleep 500 h' else h')
      | (h', Inl error) \<Rightarrow> individuallyLoop E totalImages remaining (i + 1) h')"

definition downloadAllImagesIndividually :: "dl_env \<Rightarrow> string list \<Rightarrow> unit step" where
  "downloadAllImagesIndividually E images' h =
     (if images' = [] then (h @ [Toast ''warning''], Inr ())
      else (individuallyLoop E (length images') images' 0 (h @ [Toast ''info'']) @ [Toast ''success''],
            Inr ()))"

text \<open>
  The outline of a sequential run: which image each download starts with (its first action
  is the request to the proxy) and every pause.
\<close>

datatype mark = Item string | Pause nat

fun markOf :: "event \<Rightarrow> mark option" where
  "markOf (ProxyFetch u f) = Some (Item u)"
| "markOf (Sleep ms) = Some (Pause ms)"
| "markOf _ = None"

definition outline :: "event list \<Rightarrow> mark list" where
  "outline h = List.map_filter markOf h"

fun pausedItems :: "string list \<Rightarrow> mark list" where
  "pausedItems [] = []"
| "pausedItems [u] = [Item u]"
| "pausedItems (u # v # us) = Item u # Pause 500 # pausedItems (v # us)"

section \<open>The archive of all images (image-downloader.js, \<open>downloadAllImagesAsZip\<close>)\<close>

definition CONCURRENT_DOWNLOADS :: nat where
  "CONCURRENT_DOWNLOADS = 3"

definition getImageBlobViaCanvas :: "dl_env \<Rightarrow> string \<Rightarrow> blob step" where
  "getImageBlobViaCanvas E imageUrl h =
     (case fetch E (ZipCanvas imageUrl) h of
        (h1, Failed m) \<Rightarrow> (h1, Inl (Error m))
      | (h1, Response r) \<Rightarrow>
          if blob_size (rs_blob r) > 0 then (h1, Inr (rs_blob r))
          else (h1, Inl (Error ''Canvas to blob failed'')))"

text \<open>
  \<open>processImageForZip(imageUrl, index)\<close>: the loop over \<open>attempt\<close>, which is
  \<open>maxRetries\<close> minus the number of rounds that remain.
\<close>

fun zipAttempts :: "dl_env \<Rightarrow> string \<Rightarrow> nat \<Rightarrow> nat \<Rightarrow> nat \<Rightarrow> thrown \<Rightarrow> blob step" where
  "zipAttempts E imageUrl index maxRetries 0 lastError h =
     (h, Inl (case lastError of
                Undefined \<Rightarrow> Error (''Failed to process image '' @ show_nat (index + 1))
              | Error m \<Rightarrow> Error m))"
| "zipAttempts E imageUrl index maxRetries (Suc remaining) lastError h =
     (let attempt = maxRetries - Suc remaining;
          h0 = (if attempt > 0 then sleep (1000 * attempt) h else h);
          tried =
            (case fetch E (ZipFetch imageUrl index) h0 of
               (h1, Failed m) \<Rightarrow> (h1, Inl (Error m))
             | (h1, Response r) \<Rightarrow>
                 if ok (rs_status r) then
                   (case validateImageBlob (rs_blob r) of
                      None \<Rightarrow> (h1, Inr (rs_blob r))
                    | Some err \<Rightarrow> (h1, Inl (Error err)))
                 else (h1, Inl (Error (''HTTP '' @ show_nat (rs_status r)))))
      in case tried of
           (h1, Inr b) \<Rightarrow> (h1, Inr b)
         | (h1, Inl error) \<Rightarrow>
             if attempt = maxRetries - 1 \<and> includes_str (message error) ''CORS'' then
               (case getImageBlobViaCanvas E imageUrl h1 of
                  (h2, Inr b) \<Rightarrow> (h2, Inr b)
                | (h2, Inl canvasError) \<Rightarrow>
                    zipAttempts E imageUrl index maxRetries remaining error h2)
             else zipAttempts E imageUrl index maxRetries remaining error h1)"

definition processImageForZip :: "dl_env \<Rightarrow> string \<Rightarrow> nat \<Rightarrow> blob step" where
  "processImageForZip E imageUrl index h = zipAttempts E imageUrl index 3 3 Undefined h"

text \<open>
  \<open>Promise.allSettled\<close> over a batch: the result of every image of the batch, in the
  order of the batch. The requests of a batch are in flight together; here they follow one
  another in the history, which the environment is free to ignore.
\<close>

fun processBatch :: "dl_env \<Rightarrow> string list \<Rightarrow> nat \<Rightarrow> event list \<Rightarrow> event list \<times> (thrown + blob) list" where
  "processBatch E [] index h = (h, [])"
| "processBatch E (imageUrl # batch) index h =
     (case processImageForZip E imageUrl index h of
        (h1, result) \<Rightarrow>
          (case processBatch E batch (index + 1) h1 of
             (h2, results) \<Rightarrow> (h2, result # results)))"

text \<open>
  The state of the archive loop: the history, the files of the \<open>JSZip\<close> folder (a file
  added under a name that exists replaces it), \<open>successCount\<close>, and the settled results
  of all images so far.
\<close>

record zip_state =
  z_history :: "event list"
  z_files :: "(string \<times> blob) list"
  z_successCount :: nat
  z_settled :: "(thrown + blob) list"

definition zipFileName :: "nat \<Rightarrow> string" where
  "zipFileName globalIndex = ''image_'' @ show_nat (globalIndex + 1) @ ''.jpg''"

fun addResults :: "(thrown + blob) list \<Rightarrow> nat \<Rightarrow> nat \<Rightarrow> zip_state \<Rightarrow> zip_state" where
  "addResults [] globalIndex totalImages z = z"
| "addResults (result # results) globalIndex totalImages z =
     (let z1 = (case result of
                  Inr b \<Rightarrow> z\<lparr>z_files := Map_set (z_files z) (zipFileName globalIndex) b,
                              z_successCount := z_successCount z + 1\<rparr>
                | Inl reason \<Rightarrow> z);
          z2 = z1\<lparr>z_history := z_history z1 @ [UpdateLoadingText (globalIndex + 1) totalImages],
                   z_settled := z_settled z1 @ [result]\<rparr>
      in addResults results (globalIndex + 1) totalImages z2)"

function zipLoop :: "dl_env \<Rightarrow> string list \<Rightarrow> nat \<Rightarrow> zip_state \<Rightarrow> zip_state" where
  "zipLoop E images' i z =
     (if i < length images' then
        (let batch = take CONCURRENT_DOWNLOADS (drop i images') in
         case processBatch E batch i (z_history z) of
           (h1, results) \<Rightarrow>
             (let z1 = addResults results i (length images') (z\<lparr>z_history := h1\<rparr>);
                  z2 = (if i + CONCURRENT_DOWNLOADS < length images'
                        then z1\<lparr>z_history := sleep 500 (z_history z1)\<rparr> else z1)
              in zipLoop E images' (i + CONCURRENT_DOWNLOADS) z2))
      else z)"
  by pat_completeness auto
termination
  by (relation "measure (\<lambda>(E, images', i, z). length images' - i)")
     (auto simp: CONCURRENT_DOWNLOADS_def)

declare zipLoop.simps [simp del]

text \<open>
  \<open>downloadAllImagesAsZip(images)\<close>. It returns nothing in the source; here it returns
  the files of the archive that it saves, with the two numbers of its last toast.
\<close>

record zip_report =
  archive :: "(string \<times> blob) list"
  reportedCount :: nat
  reportedTotal :: nat

definition zipEmpty :: string where
  "zipEmpty = ''Khong the xu ly anh nao cho file ZIP''"

definition zipRun :: "dl_env \<Rightarrow> string list \<Rightarrow> event list \<Rightarrow> zip_state" where
  "zipRun E images' h =
     zipLoop E images' 0
       \<lparr>z_history = h @ [ShowLoader, Toast (''Bat dau tai '' @ show_nat (length images') @ '' anh...'')],
        z_files = [], z_successCount = 0, z_settled = []\<rparr>"

definition downloadAllImagesAsZip :: "dl_env \<Rightarrow> string list \<Rightarrow> zip_report step" where
  "downloadAllImagesAsZip E images' h =
     (if images' = [] then (h, Inl (Error ''No images to download''))
      else
        (let z = zipRun E images' h;
             totalImages = length images' in
         if z_successCount z = 0 then
           (z_history z @ [Toast ''Khong the tao ZIP. Vui long su dung tai tung anh.'', HideLoader],
            Inl (Error zipEmpty))
         else
           (case fetch E ZipGenerate (z_history z) of
              (h1, Failed m) \<Rightarrow>
                (h1 @ [Toast ''Khong the tao ZIP. Vui long su dung tai tung anh.'', HideLoader],
                 Inl (Error m))
            | (h1, Response content) \<Rightarrow>
                (let filename = generateFilename ''tiktok_images'' ''zip'' (randomId E h1) in
                 case downloadBlob filename h1 of
                   (h2, _) \<Rightarrow>
                     (h2 @ [Toast (''Tai thanh cong '' @ show_nat (z_successCount z) @ ''/''
                                    @ show_nat totalImages @ '' anh trong file ZIP!''),
                            HideLoader],
                      Inr \<lparr>archive = z_files z, reportedCount = z_successCount z,
                           reportedTotal = totalImages\<rparr>)))))"

text \<open>
  The files that the settled results call for: one for each image that was fetched, named
  after its position in the list, in the order of the list.
\<close>

fun archiveOf :: "nat \<Rightarrow> (thrown + blob) list \<Rightarrow> (string \<times> blob) list" where
  "archiveOf g [] = []"
| "archiveOf g (Inr b # results) = (zipFileName g, b) # archiveOf (Suc g) results"
| "archiveOf g (Inl e # results) = archiveOf (Suc g) results"

text \<open>Reading a decimal number, to show that \<open>show_nat\<close> gives each number its own digits.\<close>

definition read_nat :: "string \<Rightarrow> nat" where
  "read_nat s = foldl (\<lambda>a c. 10 * a + (of_char c - 48)) 0 s"

text \<open>Results that are, place by place, what \<open>processImageForZip\<close> returned for the images.\<close>

definition settledFor :: "dl_env \<Rightarrow> string list \<Rightarrow> (thrown + blob) list \<Rightarrow> bool" where
  "settledFor E imgs rs =
     (\<forall>k < length rs. \<exists>hk. rs ! k = snd (processImageForZip E (imgs ! k) k hk))"

section \<open>Sample inputs\<close>

text \<open>A cache of 50 entries, keyed \<open>a\<close>, \<open>aa\<close>, ... in insertion order after the empty key.\<close>

definition sample_cache :: "nat cache" where
  "sample_cache = map (\<lambda>i. (replicate i CHR ''a'', \<lparr>data = i, timestamp = 0\<rparr>)) [0..<50]"

text \<open>A metadata payload and a download-link payload with standard, watermark-free, HD and audio entries.\<close>

definition sample_tikwm :: media_data where
  "sample_tikwm =
     \<lparr>vid_id = ''123'', title = ''X'', cover = ''https://m.example/cover.jpg'',
      play = ''https://m.example/play.mp4'', hdplay = ''https://m.example/hd.mp4'',
      wmplay = ''https://m.example/wm.mp4'', music = ''https://m.example/music.mp3'',
      author = \<lparr>nickname = ''user''\<rparr>, music_info = None, images = [],
      isPhotoSlideshow = False,
      metadata = \<lparr>source = ''tikwm'', downloadMode = [], md_note = [],
                  hasHighQualityDownloads = False, originalUrl = [], combinedAt = None\<rparr>,
      tikvidData = None, originalUrls = None\<rparr>"

definition sample_tikvid :: tikvid_data where
  "sample_tikvid =
     \<lparr>tv_id = ''123'', tv_title = ''X'', tv_thumbnail = [], tv_poster = [],
      tv_downloads =
        [\<lparr>dl_type = ''video'', dl_quality = ''Download MP4 [1]'', dl_url = ''https://d.example/1.mp4''\<rparr>,
         \<lparr>dl_type = ''video'', dl_quality = ''Download MP4 [2]'', dl_url = ''https://d.example/2.mp4''\<rparr>,
         \<lparr>dl_type = ''video'', dl_quality = ''Download MP4 HD'', dl_url = ''https://d.example/hd.mp4''\<rparr>,
         \<lparr>dl_type = ''audio'', dl_quality = ''Download MP3'', dl_url = ''https://d.example/a.mp3''\<rparr>],
      tv_directVideoLinks = [], tv_downloadCount = 4, tv_photoList = [], tv_photoCount = 0,
      tv_videoPreview = []\<rparr>"

text \<open>A metadata payload with a full music object, and a download-link payload without entries.\<close>

definition sample_tikwm_music :: media_data where
  "sample_tikwm_music = sample_tikwm
     \<lparr>music_info := Some \<lparr>mi_id = ''m1'', mi_title = ''Song'', mi_author = [],
                           mi_play = ''https://m.example/song.mp3'', mi_cover = [],
                           mi_duration = 30, mi_original = True, mi_quality = []\<rparr>\<rparr>"

definition sample_tikvid_noaudio :: tikvid_data where
  "sample_tikvid_noaudio = sample_tikvid\<lparr>tv_downloads := []\<rparr>"

text \<open>
  A metadata provider that answers and a download-link provider that times out, then one
  that has recovered; an \<open>APIManager\<close> that has not fetched anything yet.
\<close>

definition sample_raw :: tikwm_raw where
  "sample_raw =
     \<lparr>r_id = ''123'', r_title = ''X'', r_cover = ''https://m.example/cover.jpg'',
      r_play = ''https://m.example/play.mp4'', r_hdplay = ''https://m.example/hd.mp4'',
      r_wmplay = [], r_music = ''https://m.example/music.mp3'',
      r_author = Some \<lparr>nickname = ''user''\<rparr>, r_music_info = None, r_images = []\<rparr>"

definition sample_env :: env where
  "sample_env =
     \<lparr>tikwm_reply = (\<lambda>url n. Replied 200 \<lparr>code = 0, msg = [], tikwm_payload = sample_raw\<rparr>),
      tikwm_latency = (\<lambda>n. 300),
      tikvid_reply = (\<lambda>url n. Rejected ''Timeout after 15000ms''),
      tikvid_latency = (\<lambda>n. 15000),
      timer_lag = (\<lambda>n. 0)\<rparr>"


definition sample_world :: world where
  "sample_world =
     \<lparr>requestCache = [], limiter = \<lparr>lastRequestTime = 0, requestTimestamps = []\<rparr>,
      clock = 1000000, tikwmCalls = 0, tikvidCalls = 0\<rparr>"


text \<open>
  A proxy that is healthy and always returns an empty body, a direct fetch that gets an
  opaque empty body without CORS and HTTP 404 with it, and a page where nothing throws.
\<close>

definition sample_dl_env :: dl_env where
  "sample_dl_env =
     \<lparr>respond = (\<lambda>h ev. case ev of
          HealthCheck \<Rightarrow> Response \<lparr>rs_status = 200, rs_statusText = ''OK'', rs_text = [],
                                  rs_blob = \<lparr>blob_size = 2, blob_type = ''application/json''\<rparr>\<rparr>
        | ProxyFetch u f \<Rightarrow> Response \<lparr>rs_status = 200, rs_statusText = ''OK'', rs_text = [],
                                  rs_blob = \<lparr>blob_size = 0, blob_type = []\<rparr>\<rparr>
        | NoCorsFetch u \<Rightarrow> Response \<lparr>rs_status = 0, rs_statusText = [], rs_text = [],
                                  rs_blob = \<lparr>blob_size = 0, blob_type = []\<rparr>\<rparr>
        | CorsFetch u \<Rightarrow> Response \<lparr>rs_status = 404, rs_statusText = ''Not Found'', rs_text = [],
                                  rs_blob = \<lparr>blob_size = 9, blob_type = ''text/plain''\<rparr>\<rparr>
        | _ \<Rightarrow> Failed ''Failed to fetch''),
      dom_throws = (\<lambda>h ev. None),
      randomId = (\<lambda>h. ''a1b2c'')\<rparr>"


text \<open>
  An environment in which every request for an image whose URL contains \<open>bad\<close> fails,
  opening a tab for it throws, every other image arrives, and the archive is generated.
\<close>

definition sample_img_env :: dl_env where
  "sample_img_env =
     \<lparr>respond = (\<lambda>h ev. case ev of
          ProxyFetch u f \<Rightarrow>
            if includes_str u ''bad'' then Failed ''Failed to fetch''
            else Response \<lparr>rs_status = 200, rs_statusText = ''OK'', rs_text = [],
                           rs_blob = \<lparr>blob_size = 100, blob_type = ''image/jpeg''\<rparr>\<rparr>
        | ZipFetch u i \<Rightarrow>
            if includes_str u ''bad'' then Failed ''Failed to fetch''
            else Response \<lparr>rs_status = 200, rs_statusText = ''OK'', rs_text = [],
                           rs_blob = \<lparr>blob_size = 100 + i, blob_type = ''image/jpeg''\<rparr>\<rparr>
        | ZipGenerate \<Rightarrow>
            Response \<lparr>rs_status = 200, rs_statusText = [], rs_text = [],
                      rs_blob = \<lparr>blob_size = 4096, blob_type = ''application/zip''\<rparr>\<rparr>
        | _ \<Rightarrow> Failed ''Failed to fetch''),
      dom_throws = (\<lambda>h ev. Some (Error ''blocked'')),
      randomId = (\<lambda>h. ''a1b2c'')\<rparr>"

definition sample_images :: "string list" where
  "sample_images = [''https://i.example/1.jpg'', ''https://i.example/bad2.jpg'',
                    ''https://i.example/3.jpg'', ''https://i.example/bad4.jpg'',
                    ''https://i.example/5.jpg'']"

section \<open>Properties of the cache\<close>

lemma Map_get_set_same: "Map_get (Map_set m k e) k = Some e"
  by (induction m) auto

lemma Map_get_set_other: "k' \<noteq> k \<Longrightarrow> Map_get (Map_set m k e) k' = Map_get m k'"
  by (induction m) auto

lemma Map_get_delete_same: "Map_get (Map_delete m k) k = None"
  by (induction m) auto

lemma Map_get_delete_other: "k' \<noteq> k \<Longrightarrow> Map_get (Map_delete m k) k' = Map_get m k'"
  by (induction m) auto

lemma Map_get_None_iff: "Map_get m k = None \<longleftrightarrow> k \<notin> fst ` set m"
  by (induction m) force+

lemma keys_Map_set:
  "map fst (Map_set m k e) = (if k \<in> fst ` set m then map fst m else map fst m @ [k])"
  by (induction m) force+

lemma Map_set_new: "k \<notin> fst ` set m \<Longrightarrow> Map_set m k e = m @ [(k, e)]"
  by (induction m) auto


lemma Map_delete_absent: "k \<notin> fst ` set m \<Longrightarrow> Map_delete m k = m"
  by (induction m) auto

lemma length_Map_set:
  "length (Map_set m k e) = (if k \<in> fst ` set m then length m else Suc (length m))"
  by (induction m) force+


lemma distinct_Map_set: "distinct (map fst m) \<Longrightarrow> distinct (map fst (Map_set m k e))"
  by (simp add: keys_Map_set)


lemma Map_delete_hd:
  "distinct (map fst m) \<Longrightarrow> m \<noteq> [] \<Longrightarrow> Map_delete m (fst (hd m)) = tl m"
  by (cases m) (auto simp: Map_delete_absent)

lemma saveToCache_get:
  assumes "cache_inv c"
  shows "Map_get (saveToCache c k v t) k = Some \<lparr>data = v, timestamp = t\<rparr>"
proof -
  let ?e = "\<lparr>data = v, timestamp = t\<rparr>"
  let ?c = "Map_set c k ?e"
  show ?thesis
  proof (cases "length ?c > 50")
    case False
    then show ?thesis by (simp add: saveToCache_def Map_get_set_same)
  next
    case True
    with assms have new: "k \<notin> fst ` set c" and len: "length c = 50"
      by (auto simp: cache_inv_def length_Map_set split: if_splits)
    then have "c \<noteq> []" by auto
    then obtain p c' where c: "c = p # c'" by (cases c) auto
    with new have "fst p \<noteq> k" by auto
    moreover have "fst (hd ?c) = fst p" using c new by (cases p) auto
    ultimately show ?thesis
      using True by (simp add: saveToCache_def Map_get_delete_other Map_get_set_same)
  qed
qed

lemma saveToCache_inv:
  assumes "cache_inv c"
  shows "cache_inv (saveToCache c k v t)"
proof -
  let ?c = "Map_set c k \<lparr>data = v, timestamp = t\<rparr>"
  have d: "distinct (map fst ?c)" using assms by (simp add: cache_inv_def distinct_Map_set)
  show ?thesis
  proof (cases "length ?c > 50")
    case False
    with d show ?thesis by (simp add: saveToCache_def cache_inv_def)
  next
    case True
    then have ne: "?c \<noteq> []" by auto
    from assms True have "length ?c = 51"
      by (auto simp: cache_inv_def length_Map_set split: if_splits)
    then have "length (tl ?c) \<le> 50" by simp
    moreover have "distinct (map fst (tl ?c))" using d by (simp add: distinct_tl map_tl)
    ultimately show ?thesis
      using True Map_delete_hd [OF d ne] by (simp add: saveToCache_def cache_inv_def)
  qed
qed

lemma saveToCache_overflow:
  assumes "distinct (map fst c)" and "length c = 50" and "k \<notin> fst ` set c"
  shows "saveToCache c k v t = tl c @ [(k, \<lparr>data = v, timestamp = t\<rparr>)]"
proof -
  let ?e = "\<lparr>data = v, timestamp = t\<rparr>"
  have s: "Map_set c k ?e = c @ [(k, ?e)]" using assms(3) by (rule Map_set_new)
  have ne: "c \<noteq> []" using assms(2) by auto
  have d: "distinct (map fst (c @ [(k, ?e)]))" using assms(1,3) by auto
  have "Map_delete (c @ [(k, ?e)]) (fst (hd (c @ [(k, ?e)]))) = tl (c @ [(k, ?e)])"
    by (rule Map_delete_hd [OF d]) simp
  then show ?thesis using s ne assms(2) by (simp add: saveToCache_def)
qed

text \<open>
  C5. Storing a value and reading the key back at once, or at any time before the five
  minutes are over, returns the value and leaves the cache as it is (a read never reorders
  the entries); reading it more than five minutes after it was stored returns nothing and
  deletes the entry; storing a new key in a cache of 50 entries drops exactly the first
  entry of the insertion order and keeps the other 49, in order, before the new one.
\<close>

theorem response_cache_behaviour:
  fixes c :: "'v cache"
  assumes inv: "cache_inv c"
    and fresh: "t1 - t < 5 * 60 * 1000"
    and stale: "t2 - t > 5 * 60 * 1000"
  shows "getFromCache (saveToCache c k v t) k t = (Some v, saveToCache c k v t)
       \<and> getFromCache (saveToCache c k v t) k t1 = (Some v, saveToCache c k v t)
       \<and> getFromCache (saveToCache c k v t) k t2 = (None, Map_delete (saveToCache c k v t) k)
       \<and> Map_get (Map_delete (saveToCache c k v t) k) k = None
       \<and> (length c = 50 \<and> k \<notin> fst ` set c \<longrightarrow>
            saveToCache c k v t = tl c @ [(k, \<lparr>data = v, timestamp = t\<rparr>)]
            \<and> Map_get (saveToCache c k v t) (fst (hd c)) = None
            \<and> (\<forall>k' \<in> fst ` set (tl c). Map_get (saveToCache c k v t) k' = Map_get c k'))"
proof -
  note g = saveToCache_get [OF inv, of k v t]
  have a: "getFromCache (saveToCache c k v t) k t = (Some v, saveToCache c k v t)"
    using g by (simp add: getFromCache_def cacheTimeout_def)
  have b: "getFromCache (saveToCache c k v t) k t1 = (Some v, saveToCache c k v t)"
    using g fresh by (simp add: getFromCache_def cacheTimeout_def)
  have c: "getFromCache (saveToCache c k v t) k t2 = (None, Map_delete (saveToCache c k v t) k)"
    using g stale by (simp add: getFromCache_def cacheTimeout_def)
  have d: "Map_get (Map_delete (saveToCache c k v t) k) k = None"
    by (rule Map_get_delete_same)
  have e: "saveToCache c k v t = tl c @ [(k, \<lparr>data = v, timestamp = t\<rparr>)]
          \<and> Map_get (saveToCache c k v t) (fst (hd c)) = None
          \<and> (\<forall>k' \<in> fst ` set (tl c). Map_get (saveToCache c k v t) k' = Map_get c k')"
    if len: "length c = 50" and new: "k \<notin> fst ` set c"
  proof -
    from inv have dist: "distinct (map fst c)" by (simp add: cache_inv_def)
    have eq: "saveToCache c k v t = tl c @ [(k, \<lparr>data = v, timestamp = t\<rparr>)]"
      by (rule saveToCache_overflow [OF dist len new])
    from len obtain p c' where c: "c = p # c'" by (cases c) auto
    obtain k0 e0 where p: "p = (k0, e0)" by (cases p)
    from dist c p have k0: "k0 \<notin> fst ` set c'" by auto
    from new c p have kk0: "k \<noteq> k0" by auto
    have "Map_get (c' @ [(k, \<lparr>data = v, timestamp = t\<rparr>)]) k0 = None"
      using k0 kk0 by (simp add: Map_get_None_iff)
    moreover have "Map_get (c' @ [(k, \<lparr>data = v, timestamp = t\<rparr>)]) k' = Map_get c k'"
      if "k' \<in> fst ` set c'" for k'
    proof -
      from that k0 new c have "k' \<noteq> k0" "k' \<noteq> k" by auto
      moreover from new c have "k \<notin> fst ` set c'" by auto
      ultimately show ?thesis
        using Map_get_set_other [of k' k c' "\<lparr>data = v, timestamp = t\<rparr>"] c p
        by (simp add: Map_set_new)
    qed
    ultimately show ?thesis using eq c p by simp
  qed
  from a b c d e show ?thesis by blast
qed

theorem response_cache_behaviour_witness:
  "cache_inv sample_cache \<and> length sample_cache = 50 \<and> ''k'' \<notin> fst ` set sample_cache
   \<and> getFromCache (saveToCache sample_cache ''k'' 7 1000) ''k'' 1000
       = (Some 7, saveToCache sample_cache ''k'' 7 1000)
   \<and> getFromCache (saveToCache sample_cache ''k'' 7 1000) ''k'' 300999
       = (Some 7, saveToCache sample_cache ''k'' 7 1000)
   \<and> fst (getFromCache (saveToCache sample_cache ''k'' 7 1000) ''k'' 301001) = None
   \<and> saveToCache sample_cache ''k'' 7 1000
       = tl sample_cache @ [(''k'', \<lparr>data = 7, timestamp = 1000\<rparr>)]
   \<and> Map_get (saveToCache sample_cache ''k'' 7 1000) [] = None
   \<and> Map_get (saveToCache sample_cache ''k'' 7 1000) ''a''
       = Some \<lparr>data = 1, timestamp = 0\<rparr>"
proof -
  have h1: "cache_inv sample_cache" by code_simp
  have h2: "length sample_cache = 50" by (simp add: sample_cache_def)
  have h3: "''k'' \<notin> fst ` set sample_cache" by code_simp
  have h4: "fst (hd sample_cache) = []" by code_simp
  have h5: "''a'' \<in> fst ` set (tl sample_cache)" by code_simp
  have h6: "Map_get sample_cache ''a'' = Some \<lparr>data = 1, timestamp = 0\<rparr>" by code_simp
  have f: "(300999::int) - 1000 < 5 * 60 * 1000" and s: "(301001::int) - 1000 > 5 * 60 * 1000"
    by simp_all
  from response_cache_behaviour [OF h1 f s, of "''k''" 7] h1 h2 h3 h4 h5 h6
  show ?thesis by auto
qed

section \<open>Properties of the rate limiter\<close>

text \<open>
  C7. Of two acquisitions one after the other, the second, when it begins less than 2000 ms
  after the time the first recorded, first waits for the remainder, and in every case the time
  it records for its request is at least 2000 ms after the time the first recorded.
\<close>

theorem rate_limit_min_interval:
  assumes first: "waitForRateLimit st now1 lag1 = (waits1, st1, t1)"
    and second: "waitForRateLimit st1 now2 lag2 = (waits2, st2, t2)"
  shows "lastRequestTime st1 = t1 \<and> lastRequestTime st2 = t2
       \<and> (now2 - t1 < 2000 \<longrightarrow> waits2 \<noteq> [] \<and> hd waits2 = 2000 - (now2 - t1))
       \<and> t2 \<ge> t1 + 2000
       \<and> t2 \<ge> now2 + sum_list waits2"
proof -
  have l1: "lastRequestTime st1 = t1"
    using first by (auto simp: waitForRateLimit_def Let_def)
  have w: "\<forall>w \<in> set waits2. w > 0"
    using second by (auto simp: waitForRateLimit_def Let_def MIN_INTERVAL_def split: if_splits)
  have l2: "lastRequestTime st2 = t2" and t2: "t2 = now2 + sum_list waits2 + int lag2"
    using second by (auto simp: waitForRateLimit_def Let_def)
  have rem: "waits2 \<noteq> [] \<and> hd waits2 = 2000 - (now2 - t1)" if "now2 - t1 < 2000"
    using second that l1 by (auto simp: waitForRateLimit_def Let_def MIN_INTERVAL_def)
  have ge: "sum_list waits2 \<ge> 2000 - (now2 - t1)"
  proof (cases "now2 - t1 < 2000")
    case True
    with rem obtain x xs where xs: "waits2 = x # xs" "x = 2000 - (now2 - t1)"
      by (cases waits2) auto
    with w have "sum_list xs \<ge> 0" by (simp add: sum_list_nonneg less_imp_le)
    with xs show ?thesis by simp
  next
    case False
    from w have "sum_list waits2 \<ge> 0" by (simp add: sum_list_nonneg less_imp_le)
    with False show ?thesis by simp
  qed
  from l1 l2 t2 rem ge show ?thesis by auto
qed

theorem rate_limit_min_interval_witness:
  "waitForRateLimit \<lparr>lastRequestTime = 0, requestTimestamps = []\<rparr> 5000 0
     = ([], \<lparr>lastRequestTime = 5000, requestTimestamps = [5000]\<rparr>, 5000)
   \<and> waitForRateLimit \<lparr>lastRequestTime = 5000, requestTimestamps = [5000]\<rparr> 5003 0
     = ([1997], \<lparr>lastRequestTime = 7000, requestTimestamps = [5000, 7000]\<rparr>, 7000)
   \<and> (5003::int) - 5000 < 2000 \<and> hd [1997::int] = 2000 - (5003 - 5000)
   \<and> (7000::int) \<ge> 5000 + 2000"
proof -
  have a: "waitForRateLimit \<lparr>lastRequestTime = 0, requestTimestamps = []\<rparr> 5000 0
     = ([], \<lparr>lastRequestTime = 5000, requestTimestamps = [5000]\<rparr>, 5000)"
    by (simp add: waitForRateLimit_def MIN_INTERVAL_def MAX_REQUESTS_PER_MINUTE_def)
  have b: "waitForRateLimit \<lparr>lastRequestTime = 5000, requestTimestamps = [5000]\<rparr> 5003 0
     = ([1997], \<lparr>lastRequestTime = 7000, requestTimestamps = [5000, 7000]\<rparr>, 7000)"
    by (simp add: waitForRateLimit_def MIN_INTERVAL_def MAX_REQUESTS_PER_MINUTE_def)
  from rate_limit_min_interval [OF a b] a b show ?thesis by simp
qed

section \<open>Properties of the data fusion\<close>

lemma find_filter_nonempty: "find P xs = Some x \<Longrightarrow> xs \<noteq> []"
  by auto

lemma filter_nonempty_src: "filter P xs \<noteq> [] \<Longrightarrow> xs \<noteq> []"
  by auto

lemma find_hd_filter: "find P xs = Some a \<Longrightarrow> filter P xs \<noteq> [] \<and> hd (filter P xs) = a"
  by (induction xs) (auto split: if_splits)

lemma find_None_filter: "find P xs = None \<Longrightarrow> filter P xs = []"
  by (induction xs) (auto split: if_splits)

lemma tikvidUrls_fields:
  "u_hdplay (tikvidUrls p) = (case hdVideoOf p of Some v \<Rightarrow> dl_url v | None \<Rightarrow> [])"
  "u_play (tikvidUrls p) = (case standardVideoOf p of Some v \<Rightarrow> dl_url v | None \<Rightarrow> [])"
  "u_wmplay (tikvidUrls p) = (case watermarkFreeVideoOf p of Some v \<Rightarrow> dl_url v | None \<Rightarrow> [])"
  "u_music (tikvidUrls p) = (case audioDownloadOf p of Some a \<Rightarrow> dl_url a | None \<Rightarrow> [])"
  by (auto simp: tikvidUrls_def Let_def hdVideoOf_def standardVideoOf_def
      watermarkFreeVideoOf_def audioDownloadOf_def
      dest: find_hd_filter find_None_filter split: option.splits)

lemma tikvidUrls_of_combine:
  "\<exists>t. tikvidData (combineMetadataAndDownloads tikwm p url now) = Some t
     \<and> tp_downloadUrls t = tikvidUrls p"
  by (simp add: combineMetadataAndDownloads_def Let_def)

lemma preview_of_combine:
  "originalUrls (combineMetadataAndDownloads tikwm p url now) = Some (ownUrls tikwm)
   \<and> ownUrls (combineMetadataAndDownloads tikwm p url now) = ownUrls tikwm"
  by (simp add: combineMetadataAndDownloads_def Let_def ownUrls_def)

text \<open>
  C1. For every metadata payload and every download-link payload, the preview URLs of the
  fused record (standard, HD, watermark-free, audio) are the metadata provider's own, and so
  are the record's own \<open>play\<close>, \<open>hdplay\<close>, \<open>wmplay\<close> and \<open>music\<close>: no URL of the
  download-link payload replaces them. For every kind, the URL of the download-link
  provider's entry is the one stored in \<open>tikvidData.downloadUrls\<close>, and when it is not
  empty it is the URL a download takes.
\<close>

theorem fusion_preview_and_download_urls:
  fixes tikwm :: "'a media_data_scheme"
  shows "previewUrls (combineMetadataAndDownloads tikwm p url now) = ownUrls tikwm
   \<and> ownUrls (combineMetadataAndDownloads tikwm p url now) = ownUrls tikwm
   \<and> (\<exists>t. tikvidData (combineMetadataAndDownloads tikwm p url now) = Some t
        \<and> (\<forall>v. hdVideoOf p = Some v \<longrightarrow> u_hdplay (tp_downloadUrls t) = dl_url v)
        \<and> (\<forall>v. standardVideoOf p = Some v \<longrightarrow> u_play (tp_downloadUrls t) = dl_url v)
        \<and> (\<forall>v. watermarkFreeVideoOf p = Some v \<longrightarrow> u_wmplay (tp_downloadUrls t) = dl_url v)
        \<and> (\<forall>a. audioDownloadOf p = Some a \<longrightarrow> u_music (tp_downloadUrls t) = dl_url a))
   \<and> (\<forall>v. hdVideoOf p = Some v \<and> dl_url v \<noteq> [] \<longrightarrow>
          u_hdplay (downloadUrls (combineMetadataAndDownloads tikwm p url now)) = dl_url v)
   \<and> (\<forall>v. standardVideoOf p = Some v \<and> dl_url v \<noteq> [] \<longrightarrow>
          u_play (downloadUrls (combineMetadataAndDownloads tikwm p url now)) = dl_url v)
   \<and> (\<forall>v. watermarkFreeVideoOf p = Some v \<and> dl_url v \<noteq> [] \<longrightarrow>
          u_wmplay (downloadUrls (combineMetadataAndDownloads tikwm p url now)) = dl_url v)
   \<and> (\<forall>a. audioDownloadOf p = Some a \<and> dl_url a \<noteq> [] \<longrightarrow>
          u_music (downloadUrls (combineMetadataAndDownloads tikwm p url now)) = dl_url a)"
proof -
  let ?r = "combineMetadataAndDownloads tikwm p url now"
  from tikvidUrls_of_combine [of tikwm p url now] obtain t where
    t: "tikvidData ?r = Some t" and tu: "tp_downloadUrls t = tikvidUrls p"
    by blast
  note hd = tikvidUrls_fields(1) [of p, folded tu]
    and st = tikvidUrls_fields(2) [of p, folded tu]
    and wm = tikvidUrls_fields(3) [of p, folded tu]
    and mu = tikvidUrls_fields(4) [of p, folded tu]
  have pv: "previewUrls ?r = ownUrls tikwm" and own: "ownUrls ?r = ownUrls tikwm"
    using preview_of_combine [of tikwm p url now] by (simp_all add: previewUrls_def)
  have dl: "u_hdplay (downloadUrls ?r) = or_js (u_hdplay (tp_downloadUrls t)) (hdplay tikwm)"
    "u_play (downloadUrls ?r) = or_js (u_play (tp_downloadUrls t)) (play tikwm)"
    "u_wmplay (downloadUrls ?r) = or_js (u_wmplay (tp_downloadUrls t)) (wmplay tikwm)"
    "u_music (downloadUrls ?r) = or_js (u_music (tp_downloadUrls t)) (music tikwm)"
    using t pv by (simp_all add: downloadUrls_def ownUrls_def)
  show ?thesis
    using t pv own by (auto simp: dl hd st wm mu or_js_def)
qed

theorem fusion_preview_and_download_urls_witness:
  "hdVideoOf sample_tikvid
     = Some \<lparr>dl_type = ''video'', dl_quality = ''Download MP4 HD'', dl_url = ''https://d.example/hd.mp4''\<rparr>
   \<and> standardVideoOf sample_tikvid
     = Some \<lparr>dl_type = ''video'', dl_quality = ''Download MP4 [1]'', dl_url = ''https://d.example/1.mp4''\<rparr>
   \<and> watermarkFreeVideoOf sample_tikvid
     = Some \<lparr>dl_type = ''video'', dl_quality = ''Download MP4 [2]'', dl_url = ''https://d.example/2.mp4''\<rparr>
   \<and> audioDownloadOf sample_tikvid
     = Some \<lparr>dl_type = ''audio'', dl_quality = ''Download MP3'', dl_url = ''https://d.example/a.mp3''\<rparr>
   \<and> u_wmplay (downloadUrls (combineMetadataAndDownloads sample_tikwm sample_tikvid ''u'' 0))
     = ''https://d.example/2.mp4''
   \<and> u_hdplay (downloadUrls (combineMetadataAndDownloads sample_tikwm sample_tikvid ''u'' 0))
     = ''https://d.example/hd.mp4''
   \<and> u_play (downloadUrls (combineMetadataAndDownloads sample_tikwm sample_tikvid ''u'' 0))
     = ''https://d.example/1.mp4''
   \<and> u_music (downloadUrls (combineMetadataAndDownloads sample_tikwm sample_tikvid ''u'' 0))
     = ''https://d.example/a.mp3''
   \<and> u_play (previewUrls (combineMetadataAndDownloads sample_tikwm sample_tikvid ''u'' 0))
     = ''https://m.example/play.mp4''
   \<and> u_hdplay (previewUrls (combineMetadataAndDownloads sample_tikwm sample_tikvid ''u'' 0))
     = ''https://m.example/hd.mp4''"
proof -
  have h: "hdVideoOf sample_tikvid
     = Some \<lparr>dl_type = ''video'', dl_quality = ''Download MP4 HD'', dl_url = ''https://d.example/hd.mp4''\<rparr>"
    by (simp add: hdVideoOf_def sample_tikvid_def)
  have s: "standardVideoOf sample_tikvid
     = Some \<lparr>dl_type = ''video'', dl_quality = ''Download MP4 [1]'', dl_url = ''https://d.example/1.mp4''\<rparr>"
    by (simp add: standardVideoOf_def sample_tikvid_def)
  have w: "watermarkFreeVideoOf sample_tikvid
     = Some \<lparr>dl_type = ''video'', dl_quality = ''Download MP4 [2]'', dl_url = ''https://d.example/2.mp4''\<rparr>"
    by (simp add: watermarkFreeVideoOf_def sample_tikvid_def)
  have a: "audioDownloadOf sample_tikvid
     = Some \<lparr>dl_type = ''audio'', dl_quality = ''Download MP3'', dl_url = ''https://d.example/a.mp3''\<rparr>"
    by (simp add: audioDownloadOf_def sample_tikvid_def)
  have o: "ownUrls sample_tikwm = \<lparr>u_play = ''https://m.example/play.mp4'', u_hdplay = ''https://m.example/hd.mp4'',
      u_wmplay = ''https://m.example/wm.mp4'', u_music = ''https://m.example/music.mp3''\<rparr>"
    by (simp add: ownUrls_def sample_tikwm_def)
  from fusion_preview_and_download_urls [of sample_tikwm sample_tikvid "''u''" 0] h s w a o
  show ?thesis by simp
qed

lemma or_js_Nil: "or_js [] b = b"
  by (simp add: or_js_def)

lemma music_info_of_combine:
  "music_info (combineMetadataAndDownloads tikwm p url now) = combined_music_info tikwm p"
  by (simp add: combineMetadataAndDownloads_def Let_def)

lemma combined_music_info_tikwm:
  "music_info tikwm = Some mi \<Longrightarrow> mi_play mi \<noteq> [] \<Longrightarrow>
   combined_music_info tikwm p =
        Some \<lparr>mi_id = or_js (mi_id mi) (or_js (tv_id p) ''music_1''),
              mi_title = or_js (mi_title mi) ''Original Sound'',
              mi_author = or_js (mi_author mi) (or_js (nickname (author tikwm)) ''TikTok User''),
              mi_play = mi_play mi,
              mi_cover = or_js (mi_cover mi) (or_js (cover tikwm) (tv_thumbnail p)),
              mi_duration = mi_duration mi,
              mi_original = mi_original mi,
              mi_quality = []\<rparr>"
  by (simp add: combined_music_info_def Let_def)

lemma not_playable: "\<not> hasPlayableMusicInfo tikwm \<Longrightarrow>
   (case music_info tikwm of Some mi \<Rightarrow> if mi_play mi \<noteq> [] then Some mi else None | None \<Rightarrow> None) = None"
  by (auto simp: hasPlayableMusicInfo_def split: option.splits)

lemma combined_music_info_audio:
  "\<not> hasPlayableMusicInfo tikwm \<Longrightarrow> audioDownloadOf p = Some a \<Longrightarrow>
   combined_music_info tikwm p =
        Some \<lparr>mi_id = or_js (tv_id p) ''music_1'',
              mi_title = or_js (title tikwm) (or_js (tv_title p) ''Background Music''),
              mi_author = or_js (nickname (author tikwm)) ''TikTok User'',
              mi_play = dl_url a,
              mi_cover = or_js (cover tikwm) (or_js (tv_thumbnail p) (tv_poster p)),
              mi_duration = 0,
              mi_original = False,
              mi_quality = or_js (dl_quality a) ''MP3''\<rparr>"
  by (simp add: combined_music_info_def Let_def not_playable audioDownloadOf_def)

lemma combined_music_info_leftover:
  "\<not> hasPlayableMusicInfo tikwm \<Longrightarrow> audioDownloadOf p = None \<Longrightarrow>
   combined_music_info tikwm p =
     (if music tikwm \<noteq> [] \<and> music tikwm \<noteq> ''#'' then
        Some \<lparr>mi_id = or_js (tv_id p) ''music_1'',
              mi_title = or_js (title tikwm) ''Original Sound'',
              mi_author = or_js (nickname (author tikwm)) ''TikTok User'',
              mi_play = music tikwm,
              mi_cover = or_js (cover tikwm) (tv_thumbnail p),
              mi_duration = 0,
              mi_original = False,
              mi_quality = []\<rparr>
      else None)"
  using tikvidUrls_fields(4) [of p]
  by (simp add: combined_music_info_def Let_def not_playable or_js_Nil audioDownloadOf_def)

text \<open>
  C8. The music info of the fused record is chosen in this order: the metadata provider's
  music object when the payload has one with a \<open>play\<close> URL; otherwise an object made from
  the first audio entry of the download-link payload; otherwise a minimal object around the
  metadata payload's \<open>music\<close> URL, the only audio URL left, when that is neither empty nor
  \<open>#\<close>; otherwise null.
\<close>

theorem music_info_precedence:
  fixes tikwm :: "'a media_data_scheme"
  shows
  "(\<forall>mi. music_info tikwm = Some mi \<and> mi_play mi \<noteq> [] \<longrightarrow>
      music_info (combineMetadataAndDownloads tikwm p url now) =
        Some \<lparr>mi_id = or_js (mi_id mi) (or_js (tv_id p) ''music_1''),
              mi_title = or_js (mi_title mi) ''Original Sound'',
              mi_author = or_js (mi_author mi) (or_js (nickname (author tikwm)) ''TikTok User''),
              mi_play = mi_play mi,
              mi_cover = or_js (mi_cover mi) (or_js (cover tikwm) (tv_thumbnail p)),
              mi_duration = mi_duration mi,
              mi_original = mi_original mi,
              mi_quality = []\<rparr>)
   \<and> (\<forall>a. \<not> hasPlayableMusicInfo tikwm \<and> audioDownloadOf p = Some a \<longrightarrow>
      music_info (combineMetadataAndDownloads tikwm p url now) =
        Some \<lparr>mi_id = or_js (tv_id p) ''music_1'',
              mi_title = or_js (title tikwm) (or_js (tv_title p) ''Background Music''),
              mi_author = or_js (nickname (author tikwm)) ''TikTok User'',
              mi_play = dl_url a,
              mi_cover = or_js (cover tikwm) (or_js (tv_thumbnail p) (tv_poster p)),
              mi_duration = 0,
              mi_original = False,
              mi_quality = or_js (dl_quality a) ''MP3''\<rparr>)
   \<and> (\<not> hasPlayableMusicInfo tikwm \<and> audioDownloadOf p = None
        \<and> music tikwm \<noteq> [] \<and> music tikwm \<noteq> ''#'' \<longrightarrow>
      music_info (combineMetadataAndDownloads tikwm p url now) =
        Some \<lparr>mi_id = or_js (tv_id p) ''music_1'',
              mi_title = or_js (title tikwm) ''Original Sound'',
              mi_author = or_js (nickname (author tikwm)) ''TikTok User'',
              mi_play = music tikwm,
              mi_cover = or_js (cover tikwm) (tv_thumbnail p),
              mi_duration = 0,
              mi_original = False,
              mi_quality = []\<rparr>)
   \<and> (\<not> hasPlayableMusicInfo tikwm \<and> audioDownloadOf p = None
        \<and> (music tikwm = [] \<or> music tikwm = ''#'') \<longrightarrow>
      music_info (combineMetadataAndDownloads tikwm p url now) = None)"
proof (intro conjI allI impI; elim conjE)
  fix mi assume "music_info tikwm = Some mi" "mi_play mi \<noteq> []"
  then show "music_info (combineMetadataAndDownloads tikwm p url now) =
        Some \<lparr>mi_id = or_js (mi_id mi) (or_js (tv_id p) ''music_1''),
              mi_title = or_js (mi_title mi) ''Original Sound'',
              mi_author = or_js (mi_author mi) (or_js (nickname (author tikwm)) ''TikTok User''),
              mi_play = mi_play mi,
              mi_cover = or_js (mi_cover mi) (or_js (cover tikwm) (tv_thumbnail p)),
              mi_duration = mi_duration mi,
              mi_original = mi_original mi,
              mi_quality = []\<rparr>"
    by (simp add: music_info_of_combine combined_music_info_tikwm)
next
  fix a assume "\<not> hasPlayableMusicInfo tikwm" "audioDownloadOf p = Some a"
  then show "music_info (combineMetadataAndDownloads tikwm p url now) =
        Some \<lparr>mi_id = or_js (tv_id p) ''music_1'',
              mi_title = or_js (title tikwm) (or_js (tv_title p) ''Background Music''),
              mi_author = or_js (nickname (author tikwm)) ''TikTok User'',
              mi_play = dl_url a,
              mi_cover = or_js (cover tikwm) (or_js (tv_thumbnail p) (tv_poster p)),
              mi_duration = 0,
              mi_original = False,
              mi_quality = or_js (dl_quality a) ''MP3''\<rparr>"
    by (simp add: music_info_of_combine combined_music_info_audio)
next
  assume "\<not> hasPlayableMusicInfo tikwm" "audioDownloadOf p = None"
    "music tikwm \<noteq> []" "music tikwm \<noteq> ''#''"
  then show "music_info (combineMetadataAndDownloads tikwm p url now) =
        Some \<lparr>mi_id = or_js (tv_id p) ''music_1'',
              mi_title = or_js (title tikwm) ''Original Sound'',
              mi_author = or_js (nickname (author tikwm)) ''TikTok User'',
              mi_play = music tikwm,
              mi_cover = or_js (cover tikwm) (tv_thumbnail p),
              mi_duration = 0,
              mi_original = False,
              mi_quality = []\<rparr>"
    by (simp add: music_info_of_combine combined_music_info_leftover)
next
  assume "\<not> hasPlayableMusicInfo tikwm" "audioDownloadOf p = None"
    "music tikwm = [] \<or> music tikwm = ''#''"
  then show "music_info (combineMetadataAndDownloads tikwm p url now) = None"
    by (auto simp: music_info_of_combine combined_music_info_leftover)
qed

theorem music_info_precedence_witness:
  "map_option mi_play (music_info (combineMetadataAndDownloads sample_tikwm_music sample_tikvid ''u'' 0))
     = Some ''https://m.example/song.mp3''
   \<and> map_option mi_title (music_info (combineMetadataAndDownloads sample_tikwm_music sample_tikvid ''u'' 0))
     = Some ''Song''
   \<and> \<not> hasPlayableMusicInfo sample_tikwm
   \<and> map_option mi_play (music_info (combineMetadataAndDownloads sample_tikwm sample_tikvid ''u'' 0))
     = Some ''https://d.example/a.mp3''
   \<and> audioDownloadOf sample_tikvid_noaudio = None
   \<and> map_option mi_play (music_info (combineMetadataAndDownloads sample_tikwm sample_tikvid_noaudio ''u'' 0))
     = Some ''https://m.example/music.mp3''
   \<and> music_info (combineMetadataAndDownloads (sample_tikwm\<lparr>music := ''#''\<rparr>) sample_tikvid_noaudio ''u'' 0)
     = None"
proof -
  have m: "music_info sample_tikwm_music = Some \<lparr>mi_id = ''m1'', mi_title = ''Song'', mi_author = [],
                           mi_play = ''https://m.example/song.mp3'', mi_cover = [],
                           mi_duration = 30, mi_original = True, mi_quality = []\<rparr>"
    by (simp add: sample_tikwm_music_def)
  have n: "\<not> hasPlayableMusicInfo sample_tikwm" "\<not> hasPlayableMusicInfo (sample_tikwm\<lparr>music := ''#''\<rparr>)"
    by (simp_all add: hasPlayableMusicInfo_def sample_tikwm_def)
  have a: "audioDownloadOf sample_tikvid
     = Some \<lparr>dl_type = ''audio'', dl_quality = ''Download MP3'', dl_url = ''https://d.example/a.mp3''\<rparr>"
    by (simp add: audioDownloadOf_def sample_tikvid_def)
  have b: "audioDownloadOf sample_tikvid_noaudio = None"
    by (simp add: audioDownloadOf_def sample_tikvid_noaudio_def)
  have c: "music sample_tikwm = ''https://m.example/music.mp3''"
    by (simp add: sample_tikwm_def)
  have c1: "map_option mi_play (music_info (combineMetadataAndDownloads sample_tikwm_music sample_tikvid ''u'' 0))
     = Some ''https://m.example/song.mp3''
   \<and> map_option mi_title (music_info (combineMetadataAndDownloads sample_tikwm_music sample_tikvid ''u'' 0))
     = Some ''Song''"
    using music_info_precedence [of sample_tikwm_music sample_tikvid "''u''" 0] m
    by (simp add: or_js_def)
  have c2: "map_option mi_play (music_info (combineMetadataAndDownloads sample_tikwm sample_tikvid ''u'' 0))
     = Some ''https://d.example/a.mp3''"
    using music_info_precedence [of sample_tikwm sample_tikvid "''u''" 0] n(1) a
    by simp
  have c3: "map_option mi_play (music_info (combineMetadataAndDownloads sample_tikwm sample_tikvid_noaudio ''u'' 0))
     = Some ''https://m.example/music.mp3''"
    using music_info_precedence [of sample_tikwm sample_tikvid_noaudio "''u''" 0] n(1) b c
    by simp
  have c4: "music_info (combineMetadataAndDownloads (sample_tikwm\<lparr>music := ''#''\<rparr>) sample_tikvid_noaudio ''u'' 0)
     = None"
    using music_info_precedence [of "sample_tikwm\<lparr>music := ''#''\<rparr>" sample_tikvid_noaudio "''u''" 0] n(2) b
    by simp
  from c1 c2 c3 c4 n(1) b show ?thesis by simp
qed

section \<open>Properties of fetching\<close>















section \<open>Properties of the URL validation and cleaning\<close>

lemma validateTikTokUrl_rejects_foreign_host:
  assumes "new_URL U (if \<not> startsWith (trim url) ''http'' then ''https://'' @ trim url else trim url)
             = Some urlObj"
    and "\<not> list_ex (\<lambda>domain. toLowerCase (hostname urlObj) = domain
                \<or> endsWith (toLowerCase (hostname urlObj)) (''.'' @ domain)) TIKTOK_DOMAINS"
  shows "\<not> v_isValid (validateTikTokUrl U url) \<and> v_error (validateTikTokUrl U url) = Some INVALID_URL"
  using assms by (simp add: validateTikTokUrl_def Let_def)

lemma validateTikTokUrl_rejects_unparsed:
  assumes "new_URL U (if \<not> startsWith (trim url) ''http'' then ''https://'' @ trim url else trim url)
             = None"
  shows "\<not> v_isValid (validateTikTokUrl U url)"
  using assms by (simp add: validateTikTokUrl_def Let_def)

lemma fold_searchParams_delete:
  "set (fold searchParams_delete ks ps) = {p \<in> set ps. fst p \<notin> set ks}"
  by (induction ks arbitrary: ps) (auto simp: searchParams_delete_def)

lemma cleanUrl_strips_tracking:
  assumes "new_URL U url = Some urlObj"
  shows "cleanUrl U url = URL_toString U (urlObj\<lparr>searchParams :=
             fold searchParams_delete paramsToRemove (searchParams urlObj)\<rparr>)"
    and "set (fold searchParams_delete paramsToRemove (searchParams urlObj))
           = {p \<in> set (searchParams urlObj). fst p \<notin> set paramsToRemove}"
  using assms by (simp_all add: cleanUrl_def fold_searchParams_delete)

text \<open>
  C6. The validation in validators.js refuses every host that is neither an allow-listed
  domain nor a subdomain of one, and \<open>cleanUrl\<close> removes the tracking parameters from
  every string that \<open>new URL\<close> parses (the lemmas above). The two do not fit together
  in api.js. The string \<open>tiktok.com/@user/video/123?_r=1\<close> has no scheme:
  \<open>validateTikTokUrl\<close> prefixes \<open>https://\<close> and accepts its host \<open>tiktok.com\<close>, but
  \<open>cleanUrl\<close> and the \<open>isValidTikTokUrl\<close> of utils.js parse the string as it is, so
  that \<open>cleanUrl\<close> returns it with \<open>_r=1\<close> still in it and \<open>fetchVideoData\<close> refuses
  it as an invalid URL, where \<open>cleanTikTokUrl\<close> of utils.js would prefix the scheme and
  remove the parameter. And the \<open>isValidTikTokUrl\<close> of utils.js, which guards
  \<open>fetchVideoData\<close>, looks for \<open>tiktok.com\<close> anywhere in the host, so it accepts
  \<open>faketiktok.com\<close>, which the allow-list does not match.
\<close>

theorem url_normalizer_divergence:
  "v_isValid (validateTikTokUrl example_URL ''tiktok.com/@user/video/123?_r=1'')
   \<and> cleanUrl example_URL ''tiktok.com/@user/video/123?_r=1'' = ''tiktok.com/@user/video/123?_r=1''
   \<and> \<not> utils_isValidTikTokUrl example_URL ''tiktok.com/@user/video/123?_r=1''
   \<and> snd (fetchVideoData example_URL sample_env sample_world ''tiktok.com/@user/video/123?_r=1'')
       = Inl (Error INVALID_URL)
   \<and> cleanTikTokUrl example_URL ''tiktok.com/@user/video/123?_r=1''
       = ''https://tiktok.com/@user/video/123''
   \<and> cleanUrl example_URL ''https://tiktok.com/@user/video/123?_r=1''
       = ''https://tiktok.com/@user/video/123''
   \<and> utils_isValidTikTokUrl example_URL ''https://faketiktok.com/video/1''
   \<and> \<not> v_isValid (validateTikTokUrl example_URL ''https://faketiktok.com/video/1'')"
proof -
  have a: "v_isValid (validateTikTokUrl example_URL ''tiktok.com/@user/video/123?_r=1'')"
    by code_simp
  have b: "cleanUrl example_URL ''tiktok.com/@user/video/123?_r=1'' = ''tiktok.com/@user/video/123?_r=1''"
    by code_simp
  have c: "\<not> utils_isValidTikTokUrl example_URL ''tiktok.com/@user/video/123?_r=1''"
    by code_simp
  have d: "snd (fetchVideoData example_URL sample_env sample_world ''tiktok.com/@user/video/123?_r=1'')
       = Inl (Error INVALID_URL)"
    using c by (simp add: fetchVideoData_def)
  have e: "cleanTikTokUrl example_URL ''tiktok.com/@user/video/123?_r=1''
       = ''https://tiktok.com/@user/video/123''"
    by code_simp
  have f: "cleanUrl example_URL ''https://tiktok.com/@user/video/123?_r=1''
       = ''https://tiktok.com/@user/video/123''"
    by code_simp
  have g: "utils_isValidTikTokUrl example_URL ''https://faketiktok.com/video/1''"
    by code_simp
  have h: "\<not> v_isValid (validateTikTokUrl example_URL ''https://faketiktok.com/video/1'')"
    by code_simp
  from a b c d e f g h show ?thesis by blast
qed

section \<open>Properties of the media download\<close>




























lemma retryAsync_thrice_failing:
  assumes "\<And>h. fn h = (h @ t, Inl err)"
  shows "retryAsync fn 3 d h = (h @ t @ [Sleep d] @ t @ [Sleep (d * 2)] @ t, Inl err)"
  using assms by (simp add: retryAsync_def numeral_3_eq_3 Let_def sleep_def)

text \<open>
  A TikVid URL when the network is down: after the proxy has failed twice with a connection
  error, \<open>attemptDownload\<close> gives up and throws, the direct fetch is not tried, and
  \<open>downloadMedia\<close> clicks the link in its \<open>catch\<close> and returns, with a warning.
\<close>

lemma downloadMedia_connection_refused_run:
  "downloadMedia (sample_dl_env\<lparr>respond := (\<lambda>h ev. Failed ''Failed to fetch'')\<rparr>)
     ''https://dl.snapcdn.app/a.mp4'' ''a.mp4'' ''video'' [] =
     ([ShowLoader, HealthCheck, Sleep 1000, HealthCheck, HideLoader, Notification ''warning'',
       DirectLink ''https://dl.snapcdn.app/a.mp4'' ''a.mp4''], Inr ())"
  by code_simp



section \<open>Properties of the sequential image download\<close>

lemma retryAsync_once: "retryAsync fn (Suc 0) d h = fn h"
  by (simp add: retryAsync_def Let_def split: prod.splits sum.splits)

lemma outline_append: "outline (h @ t) = outline h @ outline t"
  by (simp add: outline_def List.map_filter_def)

lemma outline_single:
  "outline [] = []"
  "outline (e # t) = (case markOf e of Some m \<Rightarrow> m # outline t | None \<Rightarrow> outline t)"
  by (simp_all add: outline_def List.map_filter_def split: option.splits)

lemma outline_imageProxy:
  "outline (fst (downloadImageViaProxy E u f h)) = outline h @ [Item u]"
  by (auto simp: downloadImageViaProxy_def fetch_def downloadBlob_def Let_def outline_append
      outline_single split: response.splits)

lemma outline_imageFetch:
  "outline (fst (downloadImageViaFetch E u f h)) = outline h"
  by (auto simp: downloadImageViaFetch_def fetch_def downloadBlob_def Let_def outline_append
      outline_single split: response.splits option.splits)

lemma outline_imageLink:
  "outline (fst (createDirectDownload E u f h)) = outline h"
  by (simp add: createDirectDownload_def domOp_def outline_append outline_single)

lemma outline_imageCanvas:
  "outline (fst (downloadImageViaCanvas E u f h)) = outline h"
  by (auto simp: downloadImageViaCanvas_def fetch_def downloadBlob_def outline_append
      outline_single split: response.splits)

lemma outline_attemptImageDownload:
  "outline (fst (attemptImageDownload E u f h)) = outline h @ [Item u]"
proof -
  obtain h1 r1 where a: "downloadImageViaProxy E u f h = (h1, r1)"
    by (cases "downloadImageViaProxy E u f h")
  obtain h2 r2 where b: "downloadImageViaFetch E u f h1 = (h2, r2)"
    by (cases "downloadImageViaFetch E u f h1")
  obtain h3 r3 where c: "createDirectDownload E u f h2 = (h3, r3)"
    by (cases "createDirectDownload E u f h2")
  obtain h4 r4 where d: "downloadImageViaCanvas E u f h3 = (h4, r4)"
    by (cases "downloadImageViaCanvas E u f h3")
  have o: "outline h1 = outline h @ [Item u]" "outline h2 = outline h1"
    "outline h3 = outline h2" "outline h4 = outline h3"
    using outline_imageProxy [of E u f h] outline_imageFetch [of E u f h1]
      outline_imageLink [of E u f h2] outline_imageCanvas [of E u f h3] a b c d
    by simp_all
  show ?thesis
    using a b c d o
    by (simp add: attemptImageDownload_def retryAsync_once split: sum.splits)
qed

lemma downloadSingleImage_run:
  "outline (fst (downloadSingleImage E u i h)) = outline h @ [Item u]
   \<and> snd (downloadSingleImage E u i h) = Inr ()"
proof -
  let ?f = "generateFilename (''tiktok_image_'' @ show_nat (i + 1)) ''jpg'' (randomId E h)"
  obtain h1 r1 where a: "attemptImageDownload E u ?f h = (h1, r1)"
    by (cases "attemptImageDownload E u ?f h")
  have o: "outline h1 = outline h @ [Item u]"
    using outline_attemptImageDownload [of E u ?f h] a by simp
  show ?thesis
    using a o
    by (auto simp: downloadSingleImage_def ImageDownloader_downloadSingleImage_def Let_def
        domOp_def outline_append outline_single split: sum.splits option.splits)
qed

lemma individuallyLoop_outline:
  "i + length imgs = n \<Longrightarrow>
   outline (individuallyLoop E n imgs i h) = outline h @ pausedItems imgs"
proof (induction imgs arbitrary: i h rule: pausedItems.induct)
  case 1
  then show ?case by simp
next
  case (2 u)
  obtain h1 r1 where a: "downloadSingleImage E u i h = (h1, r1)"
    by (cases "downloadSingleImage E u i h")
  with downloadSingleImage_run [of E u i h] have "outline h1 = outline h @ [Item u]" "r1 = Inr ()"
    by simp_all
  with a 2 show ?case by auto
next
  case (3 u v us)
  obtain h1 r1 where a: "downloadSingleImage E u i h = (h1, r1)"
    by (cases "downloadSingleImage E u i h")
  with downloadSingleImage_run [of E u i h] have o: "outline h1 = outline h @ [Item u]" "r1 = Inr ()"
    by simp_all
  from "3.prems" have lt: "i < n - 1" and nx: "i + 1 + length (v # us) = n" by auto
  from "3.IH" [OF nx, of "sleep 500 h1"]
  show ?case using a o lt by (simp add: sleep_def outline_append outline_single)
qed

text \<open>
  C9. In a sequential run every image of the list is started, in order, whatever happens
  to the images before it; the pauses of the run are exactly one of 500 ms between each
  image and the next, and none after the last; and the run returns without an error.
\<close>

theorem sequential_images_run:
  "outline (fst (downloadAllImagesIndividually E imgs [])) = pausedItems imgs
   \<and> snd (downloadAllImagesIndividually E imgs []) = Inr ()"
  using individuallyLoop_outline [of 0 imgs "length imgs" E "[Toast ''info'']"]
  by (simp add: downloadAllImagesIndividually_def outline_append outline_single)

theorem sequential_images_run_witness:
  "outline (fst (downloadAllImagesIndividually sample_img_env sample_images []))
     = [Item ''https://i.example/1.jpg'', Pause 500,
        Item ''https://i.example/bad2.jpg'', Pause 500,
        Item ''https://i.example/3.jpg'', Pause 500,
        Item ''https://i.example/bad4.jpg'', Pause 500,
        Item ''https://i.example/5.jpg'']
   \<and> snd (downloadAllImagesIndividually sample_img_env sample_images []) = Inr ()"
  using sequential_images_run [of sample_img_env sample_images]
  by (simp add: sample_images_def)

section \<open>Properties of the archive of all images\<close>

lemma read_nat_snoc: "read_nat (s @ [c]) = 10 * read_nat s + (of_char c - 48)"
  by (simp add: read_nat_def)

lemma read_show_nat: "read_nat (show_nat n) = n"
proof (induction n rule: show_nat.induct)
  case (1 n)
  show ?case
  proof (cases "n < 10")
    case True
    then show ?thesis
      by (subst show_nat.simps) (simp add: read_nat_def)
  next
    case False
    then have "read_nat (show_nat n) = 10 * read_nat (show_nat (n div 10)) + (of_char (char_of (48 + n mod 10) :: char) - 48)"
      by (subst show_nat.simps) (simp add: read_nat_snoc)
    also have "\<dots> = 10 * (n div 10) + n mod 10"
      using 1 False by simp
    finally show ?thesis by simp
  qed
qed

lemma show_nat_inj: "show_nat a = show_nat b \<Longrightarrow> a = b"
  by (metis read_show_nat)

lemma zipFileName_inj: "zipFileName a = zipFileName b \<Longrightarrow> a = b"
  by (auto simp: zipFileName_def dest: show_nat_inj)

lemma archiveOf_names: "fst ` set (archiveOf g rs) \<subseteq> zipFileName ` {g ..< g + length rs}"
proof (induction g rs rule: archiveOf.induct)
  case (1 g)
  show ?case by simp
next
  case (2 g b results)
  have "{Suc g ..< Suc g + length results} \<subseteq> {g ..< g + length (Inr b # results)}" by auto
  with 2 show ?case by auto
next
  case (3 g e results)
  have "{Suc g ..< Suc g + length results} \<subseteq> {g ..< g + length (Inl e # results)}" by auto
  with 3 show ?case by auto
qed

lemma archiveOf_append:
  "archiveOf g (rs @ [r]) =
     archiveOf g rs @ (case r of Inr b \<Rightarrow> [(zipFileName (g + length rs), b)] | Inl e \<Rightarrow> [])"
  by (induction g rs rule: archiveOf.induct) (auto split: sum.splits)

lemma archiveOf_fresh: "zipFileName (g + length rs) \<notin> fst ` set (archiveOf g rs)"
proof
  assume "zipFileName (g + length rs) \<in> fst ` set (archiveOf g rs)"
  with archiveOf_names [of g rs] obtain k where
    "k \<in> {g ..< g + length rs}" "zipFileName (g + length rs) = zipFileName k" by auto
  then show False by (auto dest: zipFileName_inj)
qed

lemma archiveOf_empty: "archiveOf g rs = [] \<longleftrightarrow> list_all isl rs"
  by (induction g rs rule: archiveOf.induct) auto

lemma length_archiveOf: "length (archiveOf g rs) = length (filter (\<lambda>r. \<not> isl r) rs)"
  by (induction g rs rule: archiveOf.induct) auto

text \<open>The loop keeps the files and the count in step with the settled results.\<close>

lemma addResults_inv:
  assumes "length (z_settled z) = g" and "z_files z = archiveOf 0 (z_settled z)"
    and "z_successCount z = length (z_files z)"
  shows "z_settled (addResults rs g n z) = z_settled z @ rs
       \<and> z_files (addResults rs g n z) = archiveOf 0 (z_settled z @ rs)
       \<and> z_successCount (addResults rs g n z) = length (z_files (addResults rs g n z))"
  using assms
proof (induction rs arbitrary: g z)
  case Nil
  then show ?case by simp
next
  case (Cons r rs)
  let ?z1 = "case r of
               Inr b \<Rightarrow> z\<lparr>z_files := Map_set (z_files z) (zipFileName g) b,
                           z_successCount := z_successCount z + 1\<rparr>
             | Inl reason \<Rightarrow> z"
  let ?z2 = "?z1\<lparr>z_history := z_history ?z1 @ [UpdateLoadingText (g + 1) n],
                  z_settled := z_settled ?z1 @ [r]\<rparr>"
  have fresh: "zipFileName g \<notin> fst ` set (z_files z)"
    using archiveOf_fresh [of 0 "z_settled z"] Cons.prems by simp
  have s: "z_settled ?z2 = z_settled z @ [r]" by (cases r) simp_all
  have f: "z_files ?z2 = archiveOf 0 (z_settled z @ [r])"
    using Cons.prems fresh by (cases r) (simp_all add: archiveOf_append Map_set_new)
  have c: "z_successCount ?z2 = length (z_files ?z2)"
    using Cons.prems fresh by (cases r) (simp_all add: Map_set_new)
  have l: "length (z_settled ?z2) = g + 1" using s Cons.prems by simp
  from Cons.IH [of ?z2 "g + 1", OF l] f c s
  show ?case by (simp add: Let_def)
qed

lemma length_processBatch: "length (snd (processBatch E us i h)) = length us"
proof (induction us arbitrary: i h)
  case Nil
  show ?case by simp
next
  case (Cons u us)
  obtain h1 r where a: "processImageForZip E u i h = (h1, r)"
    by (cases "processImageForZip E u i h")
  obtain h2 rs where b: "processBatch E us (i + 1) h1 = (h2, rs)"
    by (cases "processBatch E us (i + 1) h1")
  from Cons [of "i + 1" h1] b have "length rs = length us" by simp
  with a b show ?case by simp
qed

lemma processBatch_results:
  "k < length us \<Longrightarrow>
   \<exists>hk. snd (processBatch E us i h) ! k = snd (processImageForZip E (us ! k) (i + k) hk)"
proof (induction us arbitrary: i h k)
  case Nil
  then show ?case by simp
next
  case (Cons u us)
  obtain h1 r where a: "processImageForZip E u i h = (h1, r)"
    by (cases "processImageForZip E u i h")
  obtain h2 rs where b: "processBatch E us (i + 1) h1 = (h2, rs)"
    by (cases "processBatch E us (i + 1) h1")
  show ?case
  proof (cases k)
    case 0
    have "snd (processBatch E (u # us) i h) ! 0 = snd (processImageForZip E u i h)"
      using a b by simp
    with 0 show ?thesis by auto
  next
    case (Suc j)
    with Cons.prems have j: "j < length us" by simp
    from Cons.IH [OF j, of "i + 1" h1] obtain hk where
      "snd (processBatch E us (i + 1) h1) ! j = snd (processImageForZip E (us ! j) (i + 1 + j) hk)"
      by blast
    with a b Suc show ?thesis by (auto intro!: exI [of _ hk])
  qed
qed

lemma zipLoop_inv:
  assumes "length (z_settled z) = min i (length imgs)"
    and "z_files z = archiveOf 0 (z_settled z)"
    and "z_successCount z = length (z_files z)"
  shows "length (z_settled (zipLoop E imgs i z)) = length imgs
       \<and> z_files (zipLoop E imgs i z) = archiveOf 0 (z_settled (zipLoop E imgs i z))
       \<and> z_successCount (zipLoop E imgs i z) = length (z_files (zipLoop E imgs i z))"
  using assms
proof (induction E imgs i z rule: zipLoop.induct)
  case (1 E imgs i z)
  show ?case
  proof (cases "i < length imgs")
    case False
    with "1.prems" show ?thesis by (subst (1 2 3 4 5) zipLoop.simps) simp
  next
    case True
    let ?batch = "take CONCURRENT_DOWNLOADS (drop i imgs)"
    obtain h1 results where pb: "processBatch E ?batch i (z_history z) = (h1, results)"
      by (cases "processBatch E ?batch i (z_history z)")
    let ?z1 = "addResults results i (length imgs) (z\<lparr>z_history := h1\<rparr>)"
    let ?z2 = "if i + CONCURRENT_DOWNLOADS < length imgs
               then ?z1\<lparr>z_history := sleep 500 (z_history ?z1)\<rparr> else ?z1"
    have lr: "length results = min CONCURRENT_DOWNLOADS (length imgs - i)"
      using length_processBatch [of E ?batch i "z_history z"] pb by simp
    have li: "length (z_settled (z\<lparr>z_history := h1\<rparr>)) = i"
      using "1.prems"(1) True by simp
    from addResults_inv [of "z\<lparr>z_history := h1\<rparr>" i results "length imgs", OF li]
      "1.prems"(2,3)
    have a: "z_settled ?z1 = z_settled z @ results"
      "z_files ?z1 = archiveOf 0 (z_settled ?z1)"
      "z_successCount ?z1 = length (z_files ?z1)"
      by simp_all
    have p1: "length (z_settled ?z2) = min (i + CONCURRENT_DOWNLOADS) (length imgs)"
      using a(1) lr li True by auto
    have p2: "z_files ?z2 = archiveOf 0 (z_settled ?z2)" using a(2) by simp
    have p3: "z_successCount ?z2 = length (z_files ?z2)" using a(3) by simp
    have step: "zipLoop E imgs i z = zipLoop E imgs (i + CONCURRENT_DOWNLOADS) ?z2"
      using True pb by (subst zipLoop.simps) (simp add: Let_def)
    from "1.IH" [OF True refl pb [symmetric] refl refl p1 p2 p3]
    show ?thesis by (simp only: step)
  qed
qed

lemma zipRun_inv:
  "length (z_settled (zipRun E imgs h)) = length imgs
   \<and> z_files (zipRun E imgs h) = archiveOf 0 (z_settled (zipRun E imgs h))
   \<and> z_successCount (zipRun E imgs h) = length (z_files (zipRun E imgs h))"
  unfolding zipRun_def by (rule zipLoop_inv) simp_all

text \<open>Every settled result is what \<open>processImageForZip\<close> gave for the image at its place.\<close>

lemma addResults_settled: "z_settled (addResults rs g n z) = z_settled z @ rs"
  by (induction rs arbitrary: g z) (auto simp: Let_def split: sum.splits)

lemma zipLoop_settled:
  assumes "length (z_settled z) = min i (length imgs)"
    and "settledFor E imgs (z_settled z)"
  shows "settledFor E imgs (z_settled (zipLoop E imgs i z))"
  using assms
proof (induction E imgs i z rule: zipLoop.induct)
  case (1 E imgs i z)
  show ?case
  proof (cases "i < length imgs")
    case False
    with "1.prems" show ?thesis by (subst zipLoop.simps) simp
  next
    case True
    let ?batch = "take CONCURRENT_DOWNLOADS (drop i imgs)"
    obtain h1 results where pb: "processBatch E ?batch i (z_history z) = (h1, results)"
      by (cases "processBatch E ?batch i (z_history z)")
    let ?z1 = "addResults results i (length imgs) (z\<lparr>z_history := h1\<rparr>)"
    let ?z2 = "if i + CONCURRENT_DOWNLOADS < length imgs
               then ?z1\<lparr>z_history := sleep 500 (z_history ?z1)\<rparr> else ?z1"
    have lr: "length results = min CONCURRENT_DOWNLOADS (length imgs - i)"
      using length_processBatch [of E ?batch i "z_history z"] pb by simp
    have li: "length (z_settled z) = i" using "1.prems"(1) True by simp
    have s2: "z_settled ?z2 = z_settled z @ results"
      by (simp add: addResults_settled)
    have p1: "length (z_settled ?z2) = min (i + CONCURRENT_DOWNLOADS) (length imgs)"
      using s2 lr li True by auto
    have p2: "settledFor E imgs (z_settled ?z2)"
      unfolding settledFor_def s2
    proof (intro allI impI)
      fix k assume k: "k < length (z_settled z @ results)"
      show "\<exists>hk. (z_settled z @ results) ! k = snd (processImageForZip E (imgs ! k) k hk)"
      proof (cases "k < i")
        case True
        with "1.prems"(2) li show ?thesis by (simp add: settledFor_def nth_append)
      next
        case False
        then obtain j where j: "k = i + j" using le_Suc_ex not_less by blast
        with k li have jl: "j < length results" by simp
        with lr have jb: "j < length ?batch" by simp
        from processBatch_results [OF jb, of E i "z_history z"] pb obtain hk where
          "results ! j = snd (processImageForZip E (?batch ! j) (i + j) hk)" by auto
        moreover have "?batch ! j = imgs ! (i + j)"
          using jb \<open>i < length imgs\<close> by (simp add: nth_drop)
        ultimately show ?thesis using j li by (auto simp: nth_append)
      qed
    qed
    have step: "zipLoop E imgs i z = zipLoop E imgs (i + CONCURRENT_DOWNLOADS) ?z2"
      using True pb by (subst zipLoop.simps) (simp add: Let_def)
    from "1.IH" [OF True refl pb [symmetric] refl refl p1 p2]
    show ?thesis by (simp only: step)
  qed
qed

lemma zipRun_settled: "settledFor E imgs (z_settled (zipRun E imgs h))"
  unfolding zipRun_def by (rule zipLoop_settled) (simp_all add: settledFor_def)

lemma distinct_archiveOf: "distinct (map fst (archiveOf g rs))"
proof (induction g rs rule: archiveOf.induct)
  case (1 g)
  show ?case by simp
next
  case (2 g b results)
  have "zipFileName g \<notin> fst ` set (archiveOf (Suc g) results)"
  proof
    assume "zipFileName g \<in> fst ` set (archiveOf (Suc g) results)"
    with archiveOf_names [of "Suc g" results] obtain k where
      "k \<in> {Suc g ..< Suc g + length results}" "zipFileName g = zipFileName k" by auto
    then show False by (auto dest: zipFileName_inj)
  qed
  with 2 show ?case by simp
next
  case (3 g e results)
  then show ?case by simp
qed

text \<open>
  C4. For a list of images that is not empty, the settled results are one for each image,
  each what \<open>processImageForZip\<close> returned for it. When every image failed, the operation
  fails with the error of the empty archive. When at least one image was fetched and the
  archive is generated, the operation succeeds, the archive holds exactly one file for each
  fetched image, under distinct names, and the count reported is the number of fetched
  images out of the number of images; and then the only way to fail is that generating the
  archive throws, with that error.
\<close>

theorem archive_partial_success:
  assumes "imgs \<noteq> []"
  shows "length (z_settled (zipRun E imgs h)) = length imgs
       \<and> settledFor E imgs (z_settled (zipRun E imgs h))
       \<and> (list_all isl (z_settled (zipRun E imgs h)) \<longrightarrow>
            snd (downloadAllImagesAsZip E imgs h) = Inl (Error zipEmpty))
       \<and> (\<not> list_all isl (z_settled (zipRun E imgs h)) \<longrightarrow>
            (\<forall>content. respond E (z_history (zipRun E imgs h)) ZipGenerate = Response content \<longrightarrow>
               snd (downloadAllImagesAsZip E imgs h) =
                 Inr \<lparr>archive = archiveOf 0 (z_settled (zipRun E imgs h)),
                      reportedCount = length (filter (\<lambda>r. \<not> isl r) (z_settled (zipRun E imgs h))),
                      reportedTotal = length imgs\<rparr>
               \<and> Toast (''Tai thanh cong ''
                          @ show_nat (length (filter (\<lambda>r. \<not> isl r) (z_settled (zipRun E imgs h))))
                          @ ''/'' @ show_nat (length imgs) @ '' anh trong file ZIP!'')
                   \<in> set (fst (downloadAllImagesAsZip E imgs h)))
            \<and> (\<forall>m. respond E (z_history (zipRun E imgs h)) ZipGenerate = Failed m \<longrightarrow>
                  snd (downloadAllImagesAsZip E imgs h) = Inl (Error m)))
       \<and> length (archiveOf 0 (z_settled (zipRun E imgs h)))
            = length (filter (\<lambda>r. \<not> isl r) (z_settled (zipRun E imgs h)))
       \<and> distinct (map fst (archiveOf 0 (z_settled (zipRun E imgs h))))"
proof -
  let ?z = "zipRun E imgs h"
  note inv = zipRun_inv [of E imgs h]
  from inv have cnt: "z_successCount ?z = length (filter (\<lambda>r. \<not> isl r) (z_settled ?z))"
    by (simp add: length_archiveOf)
  have zero: "z_successCount ?z = 0 \<longleftrightarrow> list_all isl (z_settled ?z)"
    using inv archiveOf_empty [of 0 "z_settled ?z"] by auto
  have allfail: "snd (downloadAllImagesAsZip E imgs h) = Inl (Error zipEmpty)"
    if "list_all isl (z_settled ?z)"
    using that zero assms by (simp add: downloadAllImagesAsZip_def Let_def)
  have ok: "snd (downloadAllImagesAsZip E imgs h) =
                 Inr \<lparr>archive = archiveOf 0 (z_settled ?z),
                      reportedCount = length (filter (\<lambda>r. \<not> isl r) (z_settled ?z)),
                      reportedTotal = length imgs\<rparr>
            \<and> Toast (''Tai thanh cong ''
                          @ show_nat (length (filter (\<lambda>r. \<not> isl r) (z_settled ?z)))
                          @ ''/'' @ show_nat (length imgs) @ '' anh trong file ZIP!'')
                   \<in> set (fst (downloadAllImagesAsZip E imgs h))"
    if "\<not> list_all isl (z_settled ?z)"
      and "respond E (z_history ?z) ZipGenerate = Response content" for content
    using that zero assms inv cnt
    by (simp add: downloadAllImagesAsZip_def Let_def fetch_def downloadBlob_def)
  have gen: "snd (downloadAllImagesAsZip E imgs h) = Inl (Error m)"
    if "\<not> list_all isl (z_settled ?z)"
      and "respond E (z_history ?z) ZipGenerate = Failed m" for m
    using that zero assms
    by (simp add: downloadAllImagesAsZip_def Let_def fetch_def)
  show ?thesis
    using inv zipRun_settled [of E imgs h] allfail ok gen
      length_archiveOf [of 0 "z_settled ?z"] distinct_archiveOf [of 0 "z_settled ?z"]
    by blast
qed

theorem archive_partial_success_witness:
  "z_settled (zipRun sample_img_env sample_images []) =
     [Inr \<lparr>blob_size = 100, blob_type = ''image/jpeg''\<rparr>,
      Inl (Error ''Failed to fetch''),
      Inr \<lparr>blob_size = 102, blob_type = ''image/jpeg''\<rparr>,
      Inl (Error ''Failed to fetch''),
      Inr \<lparr>blob_size = 104, blob_type = ''image/jpeg''\<rparr>]
   \<and> snd (downloadAllImagesAsZip sample_img_env sample_images []) =
       Inr \<lparr>archive =
              [(''image_1.jpg'', \<lparr>blob_size = 100, blob_type = ''image/jpeg''\<rparr>),
               (''image_3.jpg'', \<lparr>blob_size = 102, blob_type = ''image/jpeg''\<rparr>),
               (''image_5.jpg'', \<lparr>blob_size = 104, blob_type = ''image/jpeg''\<rparr>)],
            reportedCount = 3, reportedTotal = 5\<rparr>
   \<and> Toast ''Tai thanh cong 3/5 anh trong file ZIP!''
        \<in> set (fst (downloadAllImagesAsZip sample_img_env sample_images []))
   \<and> snd (downloadAllImagesAsZip sample_img_env
            [''https://i.example/bad2.jpg'', ''https://i.example/bad4.jpg''] [])
       = Inl (Error zipEmpty)"
proof -
  let ?s = "z_settled (zipRun sample_img_env sample_images [])"
  have ne: "sample_images \<noteq> []" by (simp add: sample_images_def)
  have s: "?s =
     [Inr \<lparr>blob_size = 100, blob_type = ''image/jpeg''\<rparr>,
      Inl (Error ''Failed to fetch''),
      Inr \<lparr>blob_size = 102, blob_type = ''image/jpeg''\<rparr>,
      Inl (Error ''Failed to fetch''),
      Inr \<lparr>blob_size = 104, blob_type = ''image/jpeg''\<rparr>]"
    by code_simp
  have g: "respond sample_img_env (z_history (zipRun sample_img_env sample_images [])) ZipGenerate
      = Response \<lparr>rs_status = 200, rs_statusText = [], rs_text = [],
                  rs_blob = \<lparr>blob_size = 4096, blob_type = ''application/zip''\<rparr>\<rparr>"
    by (simp add: sample_img_env_def)
  have n: "\<not> list_all isl ?s" by (simp add: s)
  have a: "archiveOf 0 ?s =
              [(''image_1.jpg'', \<lparr>blob_size = 100, blob_type = ''image/jpeg''\<rparr>),
               (''image_3.jpg'', \<lparr>blob_size = 102, blob_type = ''image/jpeg''\<rparr>),
               (''image_5.jpg'', \<lparr>blob_size = 104, blob_type = ''image/jpeg''\<rparr>)]"
    unfolding s by code_simp
  have c: "length (filter (\<lambda>r. \<not> isl r) ?s) = 3" by (simp add: s)
  have t: "show_nat 3 = ''3''" "show_nat 5 = ''5''" by code_simp+
  have l: "length sample_images = 5" by (simp add: sample_images_def)
  from archive_partial_success [OF ne, of sample_img_env "[]"] n g
  have "snd (downloadAllImagesAsZip sample_img_env sample_images []) =
                 Inr \<lparr>archive = archiveOf 0 ?s,
                      reportedCount = length (filter (\<lambda>r. \<not> isl r) ?s),
                      reportedTotal = length sample_images\<rparr>
        \<and> Toast (''Tai thanh cong '' @ show_nat (length (filter (\<lambda>r. \<not> isl r) ?s))
                   @ ''/'' @ show_nat (length sample_images) @ '' anh trong file ZIP!'')
            \<in> set (fst (downloadAllImagesAsZip sample_img_env sample_images []))"
    by blast
  then have good: "snd (downloadAllImagesAsZip sample_img_env sample_images []) =
       Inr \<lparr>archive =
              [(''image_1.jpg'', \<lparr>blob_size = 100, blob_type = ''image/jpeg''\<rparr>),
               (''image_3.jpg'', \<lparr>blob_size = 102, blob_type = ''image/jpeg''\<rparr>),
               (''image_5.jpg'', \<lparr>blob_size = 104, blob_type = ''image/jpeg''\<rparr>)],
            reportedCount = 3, reportedTotal = 5\<rparr>
     \<and> Toast ''Tai thanh cong 3/5 anh trong file ZIP!''
        \<in> set (fst (downloadAllImagesAsZip sample_img_env sample_images []))"
    by (simp add: a c l t)
  let ?bad = "[''https://i.example/bad2.jpg'', ''https://i.example/bad4.jpg'']"
  have b: "list_all isl (z_settled (zipRun sample_img_env ?bad []))" by code_simp
  from archive_partial_success [of ?bad sample_img_env "[]"] b
  have bad: "snd (downloadAllImagesAsZip sample_img_env ?bad []) = Inl (Error zipEmpty)"
    by simp
  from s good bad show ?thesis by blast
qed

end
